theory Spec2Isabelle
  imports Main
begin

section \<open>Values, errors and JavaScript results\<close>

text \<open>
  The Grove (the class \<open>Grove\<close> of the tree package) coordinates the UTXO tree, the
  withdrawal tree and the nullifier tree.  Elements of the field \<open>Fp\<close> and of \<open>BN\<close> are
  represented by their canonical natural number; leaf indices and node indices stay far
  below the field modulus, so \<open>add\<close>, \<open>addn\<close> and \<open>subn\<close> on them are the operations of
  the naturals.  Decimal and hexadecimal strings are the persisted form of these numbers
  and are read back as the same number, so rows hold the number itself.

  The source raises plain \<open>Error(message)\<close> values; a property read on \<open>undefined\<close> raises
  a \<open>TypeError\<close> (the argument names the property that was read) and a failed \<open>assert\<close>
  raises an \<open>AssertionError\<close>.  An exception does not undo the mutations made before
  it, so every stateful operation returns its result next to the state it leaves.
  The lock named \<open>grove\<close> serialises the operations; the model is sequential.
\<close>

datatype error = Error string | TypeError string | AssertionError

datatype 'a js = Undefined | Null | Val 'a

datatype treeSpecies = UTXO | WITHDRAWAL

text \<open>The error kinds of the specification, as the messages the source raises.\<close>

definition NotInitialized :: error where
  "NotInitialized = Error ''Grove is not initialized''"

definition InvalidBootstrapProof :: error where
  "InvalidBootstrapProof = Error ''Invalid starting leaf proof''"

definition TreeFull :: "treeSpecies \<Rightarrow> error" where
  "TreeFull sp = (case sp of UTXO \<Rightarrow> Error ''utxo tree flushes.''
                          | WITHDRAWAL \<Rightarrow> Error ''withdrawal tree flushes'')"

definition LeafNotFound :: "treeSpecies \<Rightarrow> error" where
  "LeafNotFound sp = (case sp of UTXO \<Rightarrow> Error ''Failed to find the utxo''
                              | WITHDRAWAL \<Rightarrow> Error ''Failed to find the withdrawal'')"

definition LeafNotCommitted :: error where
  "LeafNotCommitted = Error ''It is not included in a block yet''"

definition ProofUnavailable :: "treeSpecies \<Rightarrow> error" where
  "ProofUnavailable sp =
     (case sp of UTXO \<Rightarrow> Error ''Failed to generate utxo merkle proof''
               | WITHDRAWAL \<Rightarrow> Error ''Failed to generate withdrawal merkle proof'')"

section \<open>Hasher and Merkle proofs\<close>

record hasher =
  parentOf :: "nat \<Rightarrow> nat \<Rightarrow> nat"
  preHash :: "nat list"

text \<open>
  Modelled from the spec: the hasher module is not among the sources.  The table
  \<open>preHash[0..=D]\<close> starts at the zero element and each entry is the parent of two
  copies of the one before; \<open>genesisRoot(h) = h.preHash[D]\<close>, its last entry.
\<close>

definition genesisRoot :: "hasher \<Rightarrow> nat" where
  "genesisRoot h = preHash h ! (length (preHash h) - 1)"

fun chainOk :: "(nat \<Rightarrow> nat \<Rightarrow> nat) \<Rightarrow> nat list \<Rightarrow> bool" where
  "chainOk H (z # z' # zs) \<longleftrightarrow> z' = H z z \<and> chainOk H (z' # zs)"
| "chainOk H zs \<longleftrightarrow> True"

definition preHashOk :: "hasher \<Rightarrow> nat \<Rightarrow> bool" where
  "preHashOk h D \<longleftrightarrow>
     length (preHash h) = Suc D \<and> preHash h ! 0 = 0 \<and> chainOk (parentOf h) (preHash h)"

record treeData =
  root :: nat
  index :: nat
  siblings :: "nat list"

record merkleProof = treeData +
  leaf :: nat

text \<open>
  Modelled from the spec: the merkle-proof module is not among the sources.
  \<open>verifyProof\<close> folds the leaf up through the levels, selecting left or right by bit
  \<open>k\<close> of the index, and compares the result with the root.  \<open>startingLeafProof\<close>
  additionally requires \<open>siblings[k] = preHash[k]\<close> at every level where bit \<open>k\<close> of the
  index is 0; the leaf it folds is the empty leaf \<open>preHash[0]\<close>.
\<close>

definition bitAt :: "nat \<Rightarrow> nat \<Rightarrow> bool" where
  "bitAt i k \<longleftrightarrow> odd (i div 2 ^ k)"

fun foldUp :: "hasher \<Rightarrow> nat \<Rightarrow> nat \<Rightarrow> nat list \<Rightarrow> nat \<Rightarrow> nat" where
  "foldUp h i k [] node = node"
| "foldUp h i k (s # ss) node =
     foldUp h i (Suc k) ss (if bitAt i k then parentOf h s node else parentOf h node s)"

definition verifyProof :: "hasher \<Rightarrow> merkleProof \<Rightarrow> bool" where
  "verifyProof h p \<longleftrightarrow> root p = foldUp h (index p) 0 (siblings p) (leaf p)"

definition startingLeafProof :: "hasher \<Rightarrow> nat \<Rightarrow> nat \<Rightarrow> nat list \<Rightarrow> bool" where
  "startingLeafProof h r i sibs \<longleftrightarrow>
     list_all (\<lambda>k. bitAt i k \<or> sibs ! k = preHash h ! k) [0..<length sibs] \<and>
     verifyProof h \<lparr>root = r, index = i, siblings = sibs, leaf = preHash h ! 0\<rparr>"

section \<open>The database\<close>

text \<open>
  A table is the list of its rows in insertion order.  The operations follow the SQLite
  connector: \<open>findMany\<close> selects the rows that satisfy the \<open>where\<close> clause, with
  \<open>LIMIT\<close> when the limit is set and not 0; \<open>findOne\<close> destructures the first element
  of that array and returns it, which is \<open>undefined\<close> when no row matches; \<open>update\<close>
  returns the number of rows changed; \<open>upsert\<close> creates the row when \<open>update\<close> changed
  none.
\<close>

definition findMany :: "'r list \<Rightarrow> ('r \<Rightarrow> bool) \<Rightarrow> nat option \<Rightarrow> 'r list" where
  "findMany table wh limit =
     (let models = filter wh table
      in case limit of None \<Rightarrow> models
                     | Some n \<Rightarrow> if n = 0 then models else take n models)"

definition findOne :: "'r list \<Rightarrow> ('r \<Rightarrow> bool) \<Rightarrow> 'r js" where
  "findOne table wh =
     (case findMany table wh (Some 1) of [] \<Rightarrow> Undefined | obj # _ \<Rightarrow> Val obj)"

definition create :: "'r list \<Rightarrow> 'r \<Rightarrow> 'r list" where
  "create table doc = table @ [doc]"

definition update :: "'r list \<Rightarrow> ('r \<Rightarrow> bool) \<Rightarrow> ('r \<Rightarrow> 'r) \<Rightarrow> nat \<times> 'r list" where
  "update table wh upd =
     (length (filter wh table), map (\<lambda>r. if wh r then upd r else r) table)"

definition upsert :: "'r list \<Rightarrow> ('r \<Rightarrow> bool) \<Rightarrow> ('r \<Rightarrow> 'r) \<Rightarrow> 'r \<Rightarrow> 'r list" where
  "upsert table wh upd doc =
     (case update table wh upd of (updated, table') \<Rightarrow>
        if updated > 0 then table' else create table doc)"

text \<open>
  The rows the Grove reads and writes.  The \<open>id\<close> of a \<open>LightTree\<close> row is filled in by
  the schema's default when the row is created; the schema is not among the sources, and
  the model takes the number of rows already in the table as the new id.  The \<open>index\<close> column of
  \<open>Utxo\<close> and \<open>Withdrawal\<close> is a decimal string or null: a decimal string is truthy
  (also \<open>"0"\<close>), null is falsy.
\<close>

record lightTree = treeData +
  tid :: nat
  species :: treeSpecies
  startIdx :: nat
  endIdx :: nat

record utxoRow =
  utxoHash :: nat
  utxoIndex :: "nat option"

record withdrawalRow =
  withdrawalHash :: nat
  withdrawalIndex :: "nat option"

record treeNode =
  treeId :: nat
  nodeIndex :: nat
  nodeValue :: nat

record DB =
  LightTree :: "lightTree list"
  Utxo :: "utxoRow list"
  Withdrawal :: "withdrawalRow list"
  TreeNode :: "treeNode list"
  nullifierLeaves :: "nat list"

text \<open>
  A \<open>TransactionDB\<close> stages writes that the caller commits later; it is the list of the
  staged writes in order.
\<close>

datatype txop =
    UpdateLightTree treeSpecies treeData
  | CreateTreeNode nat nat nat
  | NullifierNode nat nat
  | UpsertBootstrap string "nat list" "nat list"
  | UpsertBlock string
  | CreateBootstrap "nat list" "nat list"

type_synonym TransactionDB = "txop list"

section \<open>The light rollup tree\<close>

record Leaf =
  hash :: nat
  leafNote :: "string option"
  shouldTrack :: "bool option"

type_synonym TreeCache = "((nat \<times> nat) \<times> nat) list"

record LightRollupTree =
  metadata :: lightTree
  data :: treeData
  treeHasher :: hasher
  treeForceUpdate :: bool
  treeFullSync :: bool
  observed :: "string list"

text \<open>
  Modelled from the spec: the modules of \<open>LightRollupTree\<close>, \<open>UtxoTree\<close> and
  \<open>WithdrawalTree\<close> are not among the sources.  \<open>from\<close> rehydrates a tree from a
  persisted row; the depth is the number of frontier siblings; \<open>latestLeafIndex\<close> is
  \<open>index\<close> and \<open>maxSize\<close> is \<open>2^D\<close>.  The observation predicate matches the address
  carried by the note of a leaf against the observed addresses.
\<close>

definition LightRollupTree_from :: "lightTree \<Rightarrow> hasher \<Rightarrow> bool \<Rightarrow> bool \<Rightarrow> LightRollupTree" where
  "LightRollupTree_from row h fu fs =
     \<lparr>metadata = row,
      data = \<lparr>root = root row, index = index row, siblings = siblings row\<rparr>,
      treeHasher = h, treeForceUpdate = fu, treeFullSync = fs, observed = []\<rparr>"

definition UtxoTree_from :: "lightTree \<Rightarrow> hasher \<Rightarrow> bool \<Rightarrow> bool \<Rightarrow> LightRollupTree" where
  "UtxoTree_from = LightRollupTree_from"

definition WithdrawalTree_from :: "lightTree \<Rightarrow> hasher \<Rightarrow> bool \<Rightarrow> bool \<Rightarrow> LightRollupTree" where
  "WithdrawalTree_from = LightRollupTree_from"

definition depth :: "LightRollupTree \<Rightarrow> nat" where
  "depth t = length (siblings (data t))"

definition latestLeafIndex :: "LightRollupTree \<Rightarrow> nat" where
  "latestLeafIndex t = index (data t)"

definition maxSize :: "LightRollupTree \<Rightarrow> nat" where
  "maxSize t = 2 ^ depth t"

definition treeRoot :: "LightRollupTree \<Rightarrow> nat" where
  "treeRoot t = root (data t)"

definition shouldTrackLeaf :: "LightRollupTree \<Rightarrow> Leaf \<Rightarrow> bool" where
  "shouldTrackLeaf t l \<longleftrightarrow>
     shouldTrack l = Some True \<or>
     (case leafNote l of None \<Rightarrow> False | Some a \<Rightarrow> a \<in> set (observed t))"

text \<open>
  Modelled from the spec: \<open>append\<close> of \<open>LightRollupTree\<close>.  For each leaf, starting
  from the leaf value at level 0, walk upward \<open>D\<close> times; at level \<open>k\<close> the current node
  is a right child when bit \<open>k\<close> of the current index is 1.  If right, the parent is
  \<open>parentOf(sibling_k, current)\<close> and \<open>sibling_k\<close> stays in the frontier: it is the
  completed left subtree that the later leaves under the same parent still pair with, as
  the invariant \<open>root == foldFrontier(siblings, index)\<close> and the reference root of all
  appended leaves require.  If left, \<open>sibling_k := current\<close> and the parent is
  \<open>parentOf(current, preHash[k])\<close>.  The current node and its sibling at each level are
  the nodes staged when the leaf is tracked.  After all leaves the new root, index and
  siblings are written to the metadata row within the transaction.
\<close>

definition siblingOf :: "nat \<Rightarrow> nat" where
  "siblingOf n = (if even n then n + 1 else n - 1)"

definition levelStep ::
  "hasher \<Rightarrow> nat \<Rightarrow> nat \<Rightarrow> nat \<Rightarrow> nat \<times> nat list \<times> (nat \<times> nat) list
     \<Rightarrow> nat \<times> nat list \<times> (nat \<times> nat) list" where
  "levelStep h D i k acc =
     (case acc of (current, sibs, nodes) \<Rightarrow>
        (let n = (2 ^ D + i) div 2 ^ k
         in if bitAt i k
            then (parentOf h (sibs ! k) current, sibs,
                  nodes @ [(n, current), (siblingOf n, sibs ! k)])
            else (parentOf h current (preHash h ! k), sibs[k := current],
                  nodes @ [(n, current), (siblingOf n, preHash h ! k)])))"

definition appendLeaf ::
  "hasher \<Rightarrow> nat \<Rightarrow> nat \<Rightarrow> nat \<Rightarrow> nat list \<Rightarrow> nat \<times> nat list \<times> (nat \<times> nat) list" where
  "appendLeaf h D i leafHash sibs = fold (levelStep h D i) [0..<D] (leafHash, sibs, [])"

fun appendLeaves ::
  "LightRollupTree \<Rightarrow> Leaf list \<Rightarrow> treeData \<times> TreeCache \<times> TransactionDB
     \<Rightarrow> treeData \<times> TreeCache \<times> TransactionDB" where
  "appendLeaves t [] acc = acc"
| "appendLeaves t (l # ls) (d, cache, tx) =
     (case appendLeaf (treeHasher t) (depth t) (index d) (hash l) (siblings d) of
        (node, sibs, nodes) \<Rightarrow>
          appendLeaves t ls
            (\<lparr>root = node, index = Suc (index d), siblings = sibs\<rparr>,
             (if shouldTrackLeaf t l
              then map (\<lambda>(n, v). ((tid (metadata t), n), v)) nodes @ cache else cache),
             (if shouldTrackLeaf t l
              then tx @ map (\<lambda>(n, v). CreateTreeNode (tid (metadata t)) n v) nodes else tx)))"

definition append ::
  "LightRollupTree \<Rightarrow> TreeCache \<Rightarrow> Leaf list \<Rightarrow> TransactionDB
     \<Rightarrow> LightRollupTree \<times> TreeCache \<times> TransactionDB" where
  "append t cache leaves tx =
     (case appendLeaves t leaves (data t, cache, tx) of
        (d, cache', tx') \<Rightarrow>
          (t\<lparr>data := d\<rparr>, cache', tx' @ [UpdateLightTree (species (metadata t)) d]))"

text \<open>
  Modelled from the spec: \<open>dryAppend\<close> performs the identical computation against a
  scratch copy of the frontier and returns the root with \<open>index + leaves.length\<close>,
  without touching the transaction or the cache.
\<close>

definition dryAppend :: "LightRollupTree \<Rightarrow> Leaf list \<Rightarrow> treeData" where
  "dryAppend t leaves =
     (case appendLeaves t leaves (data t, [], []) of
        (d, _, _) \<Rightarrow> d\<lparr>index := index (data t) + length leaves\<rparr>)"

section \<open>The tree cache\<close>

text \<open>
  Modelled from the spec: the cache module is not among the sources.
  \<open>getCachedSiblings\<close> returns, for the levels of the tree, the sibling nodes on the
  path of the leaf, first those found in the cache, then the rows of \<open>TreeNode\<close> for the
  sibling indices the cache does not hold.
\<close>

definition siblingIndices :: "nat \<Rightarrow> nat \<Rightarrow> nat list" where
  "siblingIndices D leafIndex = map (\<lambda>k. siblingOf ((2 ^ D + leafIndex) div 2 ^ k)) [0..<D]"

definition getCachedSiblings :: "TreeCache \<Rightarrow> DB \<Rightarrow> nat \<Rightarrow> nat \<Rightarrow> nat \<Rightarrow> treeNode list" where
  "getCachedSiblings cache d D t leafIndex =
     (let wanted = siblingIndices D leafIndex;
          cached = concat (map (\<lambda>n. case map_of cache (t, n) of
                                       None \<Rightarrow> []
                                     | Some v \<Rightarrow> [\<lparr>treeId = t, nodeIndex = n, nodeValue = v\<rparr>])
                               wanted);
          missing = filter (\<lambda>n. map_of cache (t, n) = None) wanted
      in cached @ findMany (TreeNode d) (\<lambda>r. treeId r = t \<and> nodeIndex r \<in> set missing) None)"

section \<open>The nullifier tree\<close>

record NullifierTree =
  nullifierDepth :: nat
  nullifierTreeHasher :: hasher
  nullified :: "nat list"

text \<open>
  Modelled from the spec: the nullifier tree module is not among the sources.  It is a
  sparse Merkle tree whose leaves are bits; an empty subtree of height \<open>k\<close> has the root
  \<open>preHash[k]\<close>.  \<open>nullify\<close> and \<open>dryRunNullify\<close> share one algorithm over the sorted
  keys, walking top-down and grouping the keys by their bit; \<open>nullify\<close> persists every
  visited non-empty node (in post-order), \<open>dryRunNullify\<close> returns the resulting root
  only.
\<close>

fun sparseRoot :: "hasher \<Rightarrow> nat \<Rightarrow> nat list \<Rightarrow> nat" where
  "sparseRoot h 0 ks = (if ks = [] then preHash h ! 0 else 1)"
| "sparseRoot h (Suc k) ks =
     (if ks = [] then preHash h ! Suc k
      else parentOf h (sparseRoot h k (filter (\<lambda>x. \<not> bitAt x k) ks))
                      (sparseRoot h k (filter (\<lambda>x. bitAt x k) ks)))"

fun visited :: "hasher \<Rightarrow> nat \<Rightarrow> nat \<Rightarrow> nat list \<Rightarrow> nat list \<Rightarrow> (nat \<times> nat) list" where
  "visited h 0 n ks batch = (if batch = [] then [] else [(n, 1)])"
| "visited h (Suc k) n ks batch =
     (if batch = [] then []
      else visited h k (2 * n) (filter (\<lambda>x. \<not> bitAt x k) ks) (filter (\<lambda>x. \<not> bitAt x k) batch)
         @ visited h k (2 * n + 1) (filter (\<lambda>x. bitAt x k) ks) (filter (\<lambda>x. bitAt x k) batch)
         @ [(n, sparseRoot h (Suc k) ks)])"

definition newNullifierTree :: "DB \<Rightarrow> hasher \<Rightarrow> nat \<Rightarrow> NullifierTree" where
  "newNullifierTree d h D =
     \<lparr>nullifierDepth = D, nullifierTreeHasher = h, nullified = nullifierLeaves d\<rparr>"

definition dryRunNullify :: "NullifierTree \<Rightarrow> nat list \<Rightarrow> nat" where
  "dryRunNullify t keys =
     sparseRoot (nullifierTreeHasher t) (nullifierDepth t) (nullified t @ sort keys)"

definition nullify :: "NullifierTree \<Rightarrow> nat list \<Rightarrow> TransactionDB \<Rightarrow> NullifierTree \<times> TransactionDB" where
  "nullify t keys tx =
     (let batch = sort keys; ks = nullified t @ batch
      in (t\<lparr>nullified := ks\<rparr>,
          tx @ map (\<lambda>(n, v). NullifierNode n v)
                 (visited (nullifierTreeHasher t) (nullifierDepth t) 1 ks batch)))"

section \<open>The Grove\<close>

record GroveConfig =
  utxoTreeDepth :: nat
  withdrawalTreeDepth :: nat
  nullifierTreeDepth :: nat
  utxoSubTreeSize :: nat
  withdrawalSubTreeSize :: nat
  utxoHasher :: hasher
  withdrawalHasher :: hasher
  nullifierHasher :: hasher
  fullSync :: bool
  forceUpdate :: bool
  zkAddressesToObserve :: "string list"
  addressesToObserve :: "string list"

record GrovePatch =
  header :: "string option"
  utxos :: "Leaf list"
  withdrawals :: "Leaf list"
  nullifiers :: "nat list"

record GroveSnapshot =
  utxoTreeIndex :: nat
  utxoTreeRoot :: nat
  withdrawalTreeIndex :: nat
  withdrawalTreeRoot :: nat
  nullifierTreeRoot :: "nat option"

record Grove =
  db :: DB
  config :: GroveConfig
  utxoTree :: "LightRollupTree option"
  withdrawalTree :: "LightRollupTree option"
  nullifierTree :: "NullifierTree option"
  treeCache :: TreeCache

text \<open>The constructor: no tree is set before \<open>init\<close> or \<open>applyBootstrap\<close>.\<close>

definition newGrove :: "DB \<Rightarrow> GroveConfig \<Rightarrow> Grove" where
  "newGrove d c =
     \<lparr>db = d, config = c, utxoTree = None, withdrawalTree = None, nullifierTree = None,
      treeCache = []\<rparr>"

subsection \<open>Bootstrap and init\<close>

text \<open>
  \<open>bootstrapUtxoTree\<close> and \<open>bootstrapWithdrawalTree\<close> check the starting-leaf proof
  when one is given (otherwise they start from the genesis root, index 0 and the
  pre-hashes but the last), upsert the row of the species directly in the database (not
  in a transaction), read it back and build the tree from it.
\<close>

definition bootstrapUtxoTree ::
  "Grove \<Rightarrow> merkleProof option \<Rightarrow> (error + lightTree js \<times> LightRollupTree) \<times> Grove" where
  "bootstrapUtxoTree g prf =
     (let h = utxoHasher (config g)
      in case (case prf of
                 Some p \<Rightarrow>
                   if \<not> startingLeafProof h (root p) (index p) (siblings p)
                   then Inl (Error ''Invalid starting leaf proof'')
                   else Inr (root p, index p, siblings p)
               | None \<Rightarrow> Inr (genesisRoot h, 0, butlast (preHash h))) of
           Inl e \<Rightarrow> (Inl e, g)
         | Inr (r, i, sibs) \<Rightarrow>
             (let d = (db g)\<lparr>LightTree :=
                        upsert (LightTree (db g)) (\<lambda>row. species row = UTXO)
                          (\<lambda>row. row\<lparr>root := r, index := i, siblings := sibs,
                                      startIdx := i, endIdx := i\<rparr>)
                          \<lparr>root = r, index = i, siblings = sibs,
                           tid = length (LightTree (db g)), species = UTXO,
                           startIdx = i, endIdx = i\<rparr>\<rparr>;
                  g' = g\<lparr>db := d\<rparr>;
                  treeSql = findOne (LightTree d) (\<lambda>row. species row = UTXO)
              in case treeSql of
                   Val row \<Rightarrow>
                     (Inr (treeSql,
                           UtxoTree_from row h (forceUpdate (config g)) (fullSync (config g))),
                      g')
                 | _ \<Rightarrow> (Inl (TypeError ''siblings''), g')))"

definition bootstrapWithdrawalTree ::
  "Grove \<Rightarrow> merkleProof option \<Rightarrow> (error + lightTree js \<times> LightRollupTree) \<times> Grove" where
  "bootstrapWithdrawalTree g prf =
     (let h = withdrawalHasher (config g)
      in case (case prf of
                 Some p \<Rightarrow>
                   if \<not> startingLeafProof h (root p) (index p) (siblings p)
                   then Inl (Error ''Invalid starting leaf proof'')
                   else Inr (root p, index p, siblings p)
               | None \<Rightarrow> Inr (genesisRoot h, 0, butlast (preHash h))) of
           Inl e \<Rightarrow> (Inl e, g)
         | Inr (r, i, sibs) \<Rightarrow>
             (let d = (db g)\<lparr>LightTree :=
                        upsert (LightTree (db g)) (\<lambda>row. species row = WITHDRAWAL)
                          (\<lambda>row. row\<lparr>root := r, index := i, siblings := sibs,
                                      startIdx := i, endIdx := i\<rparr>)
                          \<lparr>root = r, index = i, siblings = sibs,
                           tid = length (LightTree (db g)), species = WITHDRAWAL,
                           startIdx = i, endIdx = i\<rparr>\<rparr>;
                  g' = g\<lparr>db := d\<rparr>;
                  treeSql = findOne (LightTree d) (\<lambda>row. species row = WITHDRAWAL)
              in case treeSql of
                   Val row \<Rightarrow>
                     (Inr (treeSql,
                           WithdrawalTree_from row h (forceUpdate (config g)) (fullSync (config g))),
                      g')
                 | _ \<Rightarrow> (Inl (TypeError ''siblings''), g')))"

text \<open>
  \<open>applyBootstrap\<close> assigns the two trees only after both bootstraps returned.
\<close>

definition applyBootstrap :: "Grove \<Rightarrow> merkleProof \<Rightarrow> merkleProof \<Rightarrow> (error + unit) \<times> Grove" where
  "applyBootstrap g utxoStartingLeafProof withdrawalStartingLeafProof =
     (case bootstrapUtxoTree g (Some utxoStartingLeafProof) of
        (Inl e, g1) \<Rightarrow> (Inl e, g1)
      | (Inr utxoBootstrapResult, g1) \<Rightarrow>
          (case bootstrapWithdrawalTree g1 (Some withdrawalStartingLeafProof) of
             (Inl e, g2) \<Rightarrow> (Inl e, g2)
           | (Inr withdrawalBootstrapResult, g2) \<Rightarrow>
               (Inr (), g2\<lparr>utxoTree := Some (snd utxoBootstrapResult),
                          withdrawalTree := Some (snd withdrawalBootstrapResult)\<rparr>)))"

text \<open>
  \<open>init\<close> looks the row of each species up, bootstraps a new tree when the result is
  strictly equal to \<open>null\<close>, asserts that it has a row, and builds the tree; at the end it
  constructs the nullifier tree.
\<close>

definition init :: "Grove \<Rightarrow> (error + unit) \<times> Grove" where
  "init g =
     (let found = findOne (LightTree (db g)) (\<lambda>row. species row = UTXO)
      in case (if found = Null
               then (case bootstrapUtxoTree g None of
                       (Inl e, g1) \<Rightarrow> (Inl e, g1)
                     | (Inr res, g1) \<Rightarrow> (Inr (fst res), g1))
               else (Inr found, g)) of
           (Inl e, g1) \<Rightarrow> (Inl e, g1)
         | (Inr utxoTreeData, g1) \<Rightarrow>
             (case utxoTreeData of
                Val urow \<Rightarrow>
                  (let g2 = g1\<lparr>utxoTree :=
                               Some (UtxoTree_from urow (utxoHasher (config g1))
                                       (forceUpdate (config g1)) (fullSync (config g1)))\<rparr>;
                       found' = findOne (LightTree (db g2)) (\<lambda>row. species row = WITHDRAWAL)
                   in case (if found' = Null
                            then (case bootstrapWithdrawalTree g2 None of
                                    (Inl e, g3) \<Rightarrow> (Inl e, g3)
                                  | (Inr res, g3) \<Rightarrow> (Inr (fst res), g3))
                            else (Inr found', g2)) of
                        (Inl e, g3) \<Rightarrow> (Inl e, g3)
                      | (Inr withdrawalTreeData, g3) \<Rightarrow>
                          (case withdrawalTreeData of
                             Val wrow \<Rightarrow>
                               (Inr (),
                                g3\<lparr>withdrawalTree :=
                                     Some (WithdrawalTree_from wrow (withdrawalHasher (config g3))
                                             (forceUpdate (config g3)) (fullSync (config g3))),
                                   nullifierTree :=
                                     Some (newNullifierTree (db g3) (nullifierHasher (config g3))
                                             (nullifierTreeDepth (config g3)))\<rparr>)
                           | _ \<Rightarrow> (Inl AssertionError, g3)))
              | _ \<Rightarrow> (Inl AssertionError, g1)))"

subsection \<open>Applying a patch\<close>

text \<open>
  The sub-tree sizes are positive integers; on them
  \<open>size * Math.ceil(len / size)\<close> is the least multiple of \<open>size\<close> that is at least
  \<open>len\<close>, computed here on the naturals (at \<open>size = 0\<close> the source computes \<open>NaN\<close>; the
  theorems assume positive sizes).  The padding leaves are \<open>{hash: Fp.zero}\<close>.
\<close>

definition paddedLen :: "nat \<Rightarrow> nat \<Rightarrow> nat" where
  "paddedLen sz len = sz * ((len + sz - 1) div sz)"

definition zeroLeaf :: Leaf where
  "zeroLeaf = \<lparr>hash = 0, leafNote = None, shouldTrack = None\<rparr>"

definition appendUTXOs ::
  "Grove \<Rightarrow> Leaf list \<Rightarrow> TransactionDB \<Rightarrow> (error + nat) \<times> Grove \<times> TransactionDB" where
  "appendUTXOs g us tx =
     (let totalItemLen = paddedLen (utxoSubTreeSize (config g)) (length us);
          padding = replicate (totalItemLen - length us) zeroLeaf;
          paddedUtxos = us @ padding
      in case utxoTree g of
           None \<Rightarrow> (Inl (Error ''Grove is not initialized''), g, tx)
         | Some t \<Rightarrow>
             if latestLeafIndex t + totalItemLen \<le> maxSize t
             then (case append t (treeCache g) paddedUtxos tx of
                     (t', cache', tx') \<Rightarrow>
                       (Inr (tid (metadata t')), g\<lparr>utxoTree := Some t', treeCache := cache'\<rparr>, tx'))
             else (Inl (Error ''utxo tree flushes.''), g, tx))"

definition appendWithdrawals ::
  "Grove \<Rightarrow> Leaf list \<Rightarrow> TransactionDB \<Rightarrow> (error + nat) \<times> Grove \<times> TransactionDB" where
  "appendWithdrawals g ws tx =
     (let totalItemLen = paddedLen (withdrawalSubTreeSize (config g)) (length ws);
          padding = replicate (totalItemLen - length ws) zeroLeaf;
          paddedWithdrawals = ws @ padding
      in case withdrawalTree g of
           None \<Rightarrow> (Inl (Error ''Grove is not initialized''), g, tx)
         | Some t \<Rightarrow>
             if latestLeafIndex t + totalItemLen \<le> maxSize t
             then (case append t (treeCache g) paddedWithdrawals tx of
                     (t', cache', tx') \<Rightarrow>
                       (Inr (tid (metadata t')),
                        g\<lparr>withdrawalTree := Some t', treeCache := cache'\<rparr>, tx'))
             else (Inl (Error ''withdrawal tree flushes''), g, tx))"

definition markAsNullified :: "Grove \<Rightarrow> nat list \<Rightarrow> TransactionDB \<Rightarrow> Grove \<times> TransactionDB" where
  "markAsNullified g ns tx =
     (case nullifierTree g of
        Some tree \<Rightarrow>
          (case nullify tree ns tx of (tree', tx') \<Rightarrow> (g\<lparr>nullifierTree := Some tree'\<rparr>, tx'))
      | None \<Rightarrow> (g, tx))"

text \<open>A header is used when it is a non-empty string (\<open>if (header)\<close>).\<close>

definition recordBootstrap :: "Grove \<Rightarrow> TransactionDB \<Rightarrow> string option \<Rightarrow> error + TransactionDB" where
  "recordBootstrap g tx hdr =
     (case utxoTree g of
        None \<Rightarrow> Inl (TypeError ''data'')
      | Some ut \<Rightarrow>
          (case withdrawalTree g of
             None \<Rightarrow> Inl (TypeError ''data'')
           | Some wt \<Rightarrow>
               (let utxoBootstrap = siblings (data ut);
                    withdrawalBootstrap = siblings (data wt)
                in case hdr of
                     Some blockHash \<Rightarrow>
                       if blockHash \<noteq> []
                       then Inr (tx @ [UpsertBootstrap blockHash utxoBootstrap withdrawalBootstrap,
                                       UpsertBlock blockHash])
                       else Inr (tx @ [CreateBootstrap utxoBootstrap withdrawalBootstrap])
                   | None \<Rightarrow> Inr (tx @ [CreateBootstrap utxoBootstrap withdrawalBootstrap]))))"

definition applyGrovePatch ::
  "Grove \<Rightarrow> GrovePatch \<Rightarrow> TransactionDB \<Rightarrow> (error + nat \<times> nat) \<times> Grove \<times> TransactionDB" where
  "applyGrovePatch g patch tx =
     (case appendUTXOs g (utxos patch) tx of
        (Inl e, g1, tx1) \<Rightarrow> (Inl e, g1, tx1)
      | (Inr utxoTreeId, g1, tx1) \<Rightarrow>
          (case appendWithdrawals g1 (withdrawals patch) tx1 of
             (Inl e, g2, tx2) \<Rightarrow> (Inl e, g2, tx2)
           | (Inr withdrawalTreeId, g2, tx2) \<Rightarrow>
               (case markAsNullified g2 (nullifiers patch) tx2 of
                  (g3, tx3) \<Rightarrow>
                    if fullSync (config g3)
                    then (case recordBootstrap g3 tx3 (header patch) of
                            Inl e \<Rightarrow> (Inl e, g3, tx3)
                          | Inr tx4 \<Rightarrow> (Inr (utxoTreeId, withdrawalTreeId), g3, tx4))
                    else (Inr (utxoTreeId, withdrawalTreeId), g3, tx3))))"

subsection \<open>Dry patch and snapshot\<close>

definition dryPatch :: "Grove \<Rightarrow> GrovePatch \<Rightarrow> (error + GroveSnapshot) \<times> Grove" where
  "dryPatch g patch =
     (case utxoTree g of
        None \<Rightarrow> (Inl (TypeError ''dryAppend''), g)
      | Some ut \<Rightarrow>
          (let utxoResult = dryAppend ut (map (\<lambda>l. l\<lparr>shouldTrack := Some False\<rparr>) (utxos patch))
           in case withdrawalTree g of
                None \<Rightarrow> (Inl (TypeError ''dryAppend''), g)
              | Some wt \<Rightarrow>
                  (let withdrawalResult =
                         dryAppend wt (map (\<lambda>l. l\<lparr>shouldTrack := Some False\<rparr>) (withdrawals patch));
                       nullifierRoot =
                         map_option (\<lambda>nt. dryRunNullify nt (nullifiers patch)) (nullifierTree g);
                       utxoFixedSizeLen =
                         paddedLen (utxoSubTreeSize (config g)) (length (utxos patch));
                       withdrawalFixedSizeLen =
                         paddedLen (withdrawalSubTreeSize (config g)) (length (withdrawals patch))
                   in (Inr \<lparr>utxoTreeIndex =
                              index utxoResult + utxoFixedSizeLen - length (utxos patch),
                            utxoTreeRoot = root utxoResult,
                            withdrawalTreeIndex =
                              index withdrawalResult + withdrawalFixedSizeLen
                                - length (withdrawals patch),
                            withdrawalTreeRoot = root withdrawalResult,
                            nullifierTreeRoot = nullifierRoot\<rparr>, g))))"

definition getSnapshot :: "Grove \<Rightarrow> (error + GroveSnapshot) \<times> Grove" where
  "getSnapshot g = dryPatch g \<lparr>header = None, utxos = [], withdrawals = [], nullifiers = []\<rparr>"

text \<open>
  \<open>dryAppend\<close> and \<open>dryRunNullify\<close> are methods of the tree objects, which hold the
  cache as well; \<open>dryPatch\<close> above takes their results only.  To state what
  \<open>dryPatch\<close> may change, the same function is written once more with the two
  operations as parameters, each returning its result together with the tree and the
  cache it leaves behind.  The operations of the specification work on a scratch copy:
  they return the tree and the cache as they received them.  An operation that appended
  in place would not.
\<close>

definition dryPatchWith ::
  "(LightRollupTree \<Rightarrow> TreeCache \<Rightarrow> Leaf list \<Rightarrow> treeData \<times> LightRollupTree \<times> TreeCache)
   \<Rightarrow> (NullifierTree \<Rightarrow> TreeCache \<Rightarrow> nat list \<Rightarrow> nat \<times> NullifierTree \<times> TreeCache)
   \<Rightarrow> Grove \<Rightarrow> GrovePatch \<Rightarrow> (error + GroveSnapshot) \<times> Grove" where
  "dryPatchWith dryAppendOp dryRunNullifyOp g patch =
     (case utxoTree g of
        None \<Rightarrow> (Inl (TypeError ''dryAppend''), g)
      | Some ut \<Rightarrow>
          (case dryAppendOp ut (treeCache g)
                  (map (\<lambda>l. l\<lparr>shouldTrack := Some False\<rparr>) (utxos patch)) of
             (utxoResult, ut', c1) \<Rightarrow>
               (let g1 = g\<lparr>utxoTree := Some ut', treeCache := c1\<rparr>
                in case withdrawalTree g1 of
                     None \<Rightarrow> (Inl (TypeError ''dryAppend''), g1)
                   | Some wt \<Rightarrow>
                       (case dryAppendOp wt (treeCache g1)
                               (map (\<lambda>l. l\<lparr>shouldTrack := Some False\<rparr>) (withdrawals patch)) of
                          (withdrawalResult, wt', c2) \<Rightarrow>
                            (let g2 = g1\<lparr>withdrawalTree := Some wt', treeCache := c2\<rparr>;
                                 nullified =
                                   (case nullifierTree g2 of
                                      None \<Rightarrow> (None, g2)
                                    | Some nt \<Rightarrow>
                                        (case dryRunNullifyOp nt (treeCache g2) (nullifiers patch) of
                                           (r, nt', c3) \<Rightarrow>
                                             (Some r, g2\<lparr>nullifierTree := Some nt',
                                                          treeCache := c3\<rparr>)));
                                 utxoFixedSizeLen =
                                   paddedLen (utxoSubTreeSize (config g)) (length (utxos patch));
                                 withdrawalFixedSizeLen =
                                   paddedLen (withdrawalSubTreeSize (config g))
                                     (length (withdrawals patch))
                             in (Inr \<lparr>utxoTreeIndex =
                                        index utxoResult + utxoFixedSizeLen - length (utxos patch),
                                      utxoTreeRoot = root utxoResult,
                                      withdrawalTreeIndex =
                                        index withdrawalResult + withdrawalFixedSizeLen
                                          - length (withdrawals patch),
                                      withdrawalTreeRoot = root withdrawalResult,
                                      nullifierTreeRoot = fst nullified\<rparr>,
                                 snd nullified))))))"



definition scratchDryRunNullify ::
  "NullifierTree \<Rightarrow> TreeCache \<Rightarrow> nat list \<Rightarrow> nat \<times> NullifierTree \<times> TreeCache" where
  "scratchDryRunNullify t cache keys = (dryRunNullify t keys, t, cache)"

definition inPlaceDryAppend ::
  "LightRollupTree \<Rightarrow> TreeCache \<Rightarrow> Leaf list \<Rightarrow> treeData \<times> LightRollupTree \<times> TreeCache" where
  "inPlaceDryAppend t cache leaves = (dryAppend t leaves, t\<lparr>data := dryAppend t leaves\<rparr>, cache)"

subsection \<open>Merkle proofs\<close>

text \<open>
  The length of the binary numeral of a node index (\<open>toString(2).length\<close>; the numeral
  of 0 is \<open>"0"\<close>) gives the level of a returned node, \<open>1 + D - length\<close>.  A node at level
  \<open>D\<close> replaces the root, a node at another level is written into the siblings at that
  level.  With \<open>D + 1\<close> pre-hashes the siblings have \<open>D\<close> entries and every level from 0
  below \<open>D\<close> is inside the array; a negative level leaves the entries as they are.
\<close>

fun binLength :: "nat \<Rightarrow> nat" where
  "binLength n = (if n < 2 then 1 else Suc (binLength (n div 2)))"

declare binLength.simps [simp del]

definition placeSibling :: "nat \<Rightarrow> treeNode \<Rightarrow> nat \<times> nat list \<Rightarrow> nat \<times> nat list" where
  "placeSibling D obj acc =
     (case acc of (r, sibs) \<Rightarrow>
        (let level = 1 + int D - int (binLength (nodeIndex obj))
         in if level = int D then (nodeValue obj, sibs)
            else if 0 \<le> level then (r, sibs[nat level := nodeValue obj])
            else (r, sibs)))"

definition reconstructProof ::
  "hasher \<Rightarrow> nat \<Rightarrow> LightRollupTree \<Rightarrow> treeNode list \<Rightarrow> nat \<Rightarrow> nat \<Rightarrow> merkleProof" where
  "reconstructProof h D t cachedSiblings leafIndex leafHash =
     (case fold (placeSibling D) cachedSiblings (treeRoot t, butlast (preHash h)) of
        (r, sibs) \<Rightarrow> \<lparr>root = r, index = leafIndex, siblings = sibs, leaf = leafHash\<rparr>)"

definition utxoMerkleProof :: "Grove \<Rightarrow> nat \<Rightarrow> error + merkleProof" where
  "utxoMerkleProof g h =
     (case findOne (Utxo (db g)) (\<lambda>r. utxoHash r = h) of
        Val utxo \<Rightarrow>
          (case utxoIndex utxo of
             None \<Rightarrow> Inl (Error ''It is not included in a block yet'')
           | Some i \<Rightarrow>
               (case utxoTree g of
                  None \<Rightarrow> Inl (TypeError ''metadata'')
                | Some t \<Rightarrow>
                    (let cachedSiblings =
                           getCachedSiblings (treeCache g) (db g) (utxoTreeDepth (config g))
                             (tid (metadata t)) i;
                         prf = reconstructProof (utxoHasher (config g)) (utxoTreeDepth (config g))
                                 t cachedSiblings i (utxoHash utxo)
                     in if verifyProof (utxoHasher (config g)) prf then Inr prf
                        else Inl (Error ''Failed to generate utxo merkle proof''))))
      | _ \<Rightarrow> Inl (Error ''Failed to find the utxo''))"

definition withdrawalMerkleProof :: "Grove \<Rightarrow> nat \<Rightarrow> nat option \<Rightarrow> error + merkleProof" where
  "withdrawalMerkleProof g noteHash idx =
     (case findOne (Withdrawal (db g)) (\<lambda>r. withdrawalHash r = noteHash) of
        Val withdrawal \<Rightarrow>
          (case (case idx of Some i \<Rightarrow> Some i | None \<Rightarrow> withdrawalIndex withdrawal) of
             None \<Rightarrow> Inl (Error ''It is not included in a block yet'')
           | Some leafIndex \<Rightarrow>
               (case withdrawalTree g of
                  None \<Rightarrow> Inl (TypeError ''metadata'')
                | Some t \<Rightarrow>
                    (let cachedSiblings =
                           getCachedSiblings (treeCache g) (db g)
                             (withdrawalTreeDepth (config g)) (tid (metadata t)) leafIndex;
                         prf = reconstructProof (withdrawalHasher (config g))
                                 (withdrawalTreeDepth (config g)) t cachedSiblings leafIndex
                                 noteHash
                     in if verifyProof (withdrawalHasher (config g)) prf then Inr prf
                        else Inl (Error ''Failed to generate withdrawal merkle proof''))))
      | _ \<Rightarrow> Inl (Error ''Failed to find the withdrawal''))"

section \<open>Concrete groves\<close>

text \<open>
  A small hasher on the naturals with its table of pre-hashes for depth 2, a
  configuration of depth 2 with UTXO sub-trees of 4 leaves, an empty database, and the
  Grove bootstrapped over it from the starting-leaf proof of the empty tree (a light
  node: \<open>applyBootstrap\<close> sets no nullifier tree).
\<close>

definition demoHasher :: hasher where
  "demoHasher = \<lparr>parentOf = (\<lambda>l r. 2 * l + 3 * r + 1), preHash = [0, 1, 6]\<rparr>"

definition demoConfig :: GroveConfig where
  "demoConfig =
     \<lparr>utxoTreeDepth = 2, withdrawalTreeDepth = 2, nullifierTreeDepth = 2,
      utxoSubTreeSize = 4, withdrawalSubTreeSize = 2,
      utxoHasher = demoHasher, withdrawalHasher = demoHasher, nullifierHasher = demoHasher,
      fullSync = False, forceUpdate = False,
      zkAddressesToObserve = [], addressesToObserve = []\<rparr>"

definition emptyDB :: DB where
  "emptyDB = \<lparr>LightTree = [], Utxo = [], Withdrawal = [], TreeNode = [], nullifierLeaves = []\<rparr>"

definition genesisProof :: merkleProof where
  "genesisProof = \<lparr>root = 6, index = 0, siblings = [0, 1], leaf = 0\<rparr>"

definition badProof :: merkleProof where
  "badProof = \<lparr>root = 7, index = 0, siblings = [0, 1], leaf = 0\<rparr>"

definition bootstrapped :: Grove where
  "bootstrapped = snd (applyBootstrap (newGrove emptyDB demoConfig) genesisProof genesisProof)"

definition oneUtxo :: GrovePatch where
  "oneUtxo =
     \<lparr>header = None, utxos = [\<lparr>hash = 1, leafNote = None, shouldTrack = None\<rparr>],
      withdrawals = [], nullifiers = [5]\<rparr>"

text \<open>The Grove after that patch: its UTXO tree is full.\<close>

definition fullGrove :: Grove where
  "fullGrove = fst (snd (applyGrovePatch bootstrapped oneUtxo []))"

text \<open>
  A Grove with sub-trees of one leaf after a patch with one tracked UTXO and one tracked
  withdrawal, over a database that knows the UTXOs 1 (committed at index 0), 2 (not yet
  committed) and 4 (recorded at index 1, where it is not), and the withdrawals 7
  (recorded at index 1 although it was appended at index 0) and 8 (not yet committed).
\<close>

definition trackedPatch :: GrovePatch where
  "trackedPatch =
     \<lparr>header = None, utxos = [\<lparr>hash = 1, leafNote = None, shouldTrack = Some True\<rparr>],
      withdrawals = [\<lparr>hash = 7, leafNote = None, shouldTrack = Some True\<rparr>],
      nullifiers = []\<rparr>"

definition provingGrove :: Grove where
  "provingGrove =
     (let g = bootstrapped\<lparr>config := demoConfig\<lparr>utxoSubTreeSize := 1,
                                                  withdrawalSubTreeSize := 1\<rparr>\<rparr>;
          g' = fst (snd (applyGrovePatch g trackedPatch []))
      in g'\<lparr>db := (db g')\<lparr>Utxo := [\<lparr>utxoHash = 1, utxoIndex = Some 0\<rparr>,
                                    \<lparr>utxoHash = 2, utxoIndex = None\<rparr>,
                                    \<lparr>utxoHash = 4, utxoIndex = Some 1\<rparr>],
                           Withdrawal := [\<lparr>withdrawalHash = 7, withdrawalIndex = Some 1\<rparr>,
                                          \<lparr>withdrawalHash = 8, withdrawalIndex = None\<rparr>]\<rparr>\<rparr>)"

text \<open>
  A patch whose UTXO fits the bootstrapped Grove while its five withdrawals, padded to
  six, do not.
\<close>

definition tooManyWithdrawals :: GrovePatch where
  "tooManyWithdrawals =
     \<lparr>header = None, utxos = [\<lparr>hash = 1, leafNote = None, shouldTrack = None\<rparr>],
      withdrawals = replicate 5 \<lparr>hash = 7, leafNote = None, shouldTrack = None\<rparr>,
      nullifiers = []\<rparr>"

section \<open>Notions used by the statements\<close>

text \<open>
  The writes of the nullifier tree among the staged writes of a transaction.
\<close>

definition isNullifierOp :: "txop \<Rightarrow> bool" where
  "isNullifierOp op = (case op of NullifierNode _ _ \<Rightarrow> True | _ \<Rightarrow> False)"

text \<open>
  A batch is appended from the latest leaf index on, the raw leaves first and the
  padding after them; the first padding leaf therefore lives at the latest leaf index
  plus the number of raw leaves.
\<close>

definition firstPaddingIndex :: "LightRollupTree \<Rightarrow> Leaf list \<Rightarrow> nat" where
  "firstPaddingIndex t leaves = latestLeafIndex t + length leaves"

text \<open>
  The invariant of the frontier, \<open>root == foldFrontier(siblings, index)\<close>: the root is
  the hash that results from folding the empty leaf at \<open>index\<close> up through the levels,
  with the frontier sibling on the left where the bit of the index is 1 and with the
  root of the empty subtree, \<open>preHash[k]\<close>, on the right where it is 0.  The recursion
  goes level by level, halving the index.  A full tree (\<open>index = 2^D\<close>) has no next leaf
  and no such fold.  \<open>nextFrontier\<close> is the frontier that the same walk leaves behind
  for a given leaf.  A tree is well-formed when its hasher has the \<open>D + 1\<close> pre-hashes
  of the specification and its data satisfy the invariant.
\<close>

fun foldFrontierFrom :: "hasher \<Rightarrow> nat list \<Rightarrow> nat list \<Rightarrow> nat \<Rightarrow> nat \<Rightarrow> nat" where
  "foldFrontierFrom h (s # ss) (z # zs) i node =
     foldFrontierFrom h ss zs (i div 2) (if odd i then parentOf h s node else parentOf h node z)"
| "foldFrontierFrom h ss zs i node = node"

fun nextFrontier :: "hasher \<Rightarrow> nat list \<Rightarrow> nat list \<Rightarrow> nat \<Rightarrow> nat \<Rightarrow> nat list" where
  "nextFrontier h (s # ss) (z # zs) i node =
     (if odd i then s # nextFrontier h ss zs (i div 2) (parentOf h s node)
      else node # nextFrontier h ss zs (i div 2) (parentOf h node z))"
| "nextFrontier h ss zs i node = ss"

definition foldFrontier :: "hasher \<Rightarrow> nat list \<Rightarrow> nat \<Rightarrow> nat" where
  "foldFrontier h sibs i = foldFrontierFrom h sibs (preHash h) i (preHash h ! 0)"

definition frontierHolds :: "hasher \<Rightarrow> treeData \<Rightarrow> bool" where
  "frontierHolds h d \<longleftrightarrow>
     2 ^ length (siblings d) \<le> index d \<or> root d = foldFrontier h (siblings d) (index d)"

definition frontierOk :: "LightRollupTree \<Rightarrow> bool" where
  "frontierOk t \<longleftrightarrow> preHashOk (treeHasher t) (depth t) \<and> frontierHolds (treeHasher t) (data t)"

section \<open>Facts about appending\<close>


lemma levelStep_length:
  "length (fst (snd (levelStep h D i k acc))) = length (fst (snd acc))"
  by (cases acc) (simp add: levelStep_def Let_def)

lemma fold_levelStep_length:
  "length (fst (snd (fold (levelStep h D i) ks acc))) = length (fst (snd acc))"
  by (induction ks arbitrary: acc) (simp_all add: levelStep_length)

lemma appendLeaf_length:
  "appendLeaf h D i x sibs = (node, sibs', nodes) \<Longrightarrow> length sibs' = length sibs"
  using fold_levelStep_length [of h D i "[0..<D]" "(x, sibs, [])"]
  by (simp add: appendLeaf_def)

lemma appendLeaves_index:
  "index (fst (appendLeaves t ls (d, cache, tx))) = index d + length ls"
  by (induction ls arbitrary: d cache tx) (auto split: prod.splits)

lemma appendLeaves_length:
  "length (siblings (fst (appendLeaves t ls (d, cache, tx)))) = length (siblings d)"
  by (induction ls arbitrary: d cache tx) (auto split: prod.splits dest: appendLeaf_length)

lemma appendLeaves_tx:
  "filter isNullifierOp (snd (snd (appendLeaves t ls (d, cache, tx)))) = filter isNullifierOp tx"
proof (induction ls arbitrary: d cache tx)
  case Nil
  then show ?case by simp
next
  case (Cons l ls)
  have "filter isNullifierOp (map (\<lambda>(n, v). CreateTreeNode c n v) nodes) = []" for c nodes
    by (induction nodes) (auto simp: isNullifierOp_def)
  with Cons show ?case by (auto split: prod.splits)
qed

lemma append_facts:
  assumes "append t cache ls tx = (t', cache', tx')"
  shows "index (data t') = index (data t) + length ls"
    and "depth t' = depth t"
    and "metadata t' = metadata t"
    and "filter isNullifierOp tx' = filter isNullifierOp tx"
proof -
  obtain d c x where a: "appendLeaves t ls (data t, cache, tx) = (d, c, x)"
    by (cases "appendLeaves t ls (data t, cache, tx)") auto
  with assms have t': "t' = t\<lparr>data := d\<rparr>" and tx': "tx' = x @ [UpdateLightTree (species (metadata t)) d]"
    by (simp_all add: append_def)
  from a appendLeaves_index [of t ls "data t" cache tx]
  show "index (data t') = index (data t) + length ls" by (simp add: t')
  from a appendLeaves_length [of t ls "data t" cache tx]
  show "depth t' = depth t" by (simp add: t' depth_def)
  show "metadata t' = metadata t" by (simp add: t')
  from a appendLeaves_tx [of t ls "data t" cache tx]
  show "filter isNullifierOp tx' = filter isNullifierOp tx" by (simp add: tx' isNullifierOp_def)
qed

lemma paddedLen_ge: "0 < sz \<Longrightarrow> len \<le> paddedLen sz len"
proof -
  assume pos: "0 < sz"
  let ?m = "len + sz - 1"
  have "sz * (?m div sz) + ?m mod sz = ?m" by simp
  moreover have "?m mod sz < sz" using pos by simp
  ultimately have "len \<le> sz * (?m div sz)" using pos by linarith
  then show ?thesis by (simp add: paddedLen_def)
qed

lemma appendUTXOs_full:
  assumes "utxoTree g = Some ut"
    and "2 ^ depth ut < latestLeafIndex ut + paddedLen (utxoSubTreeSize (config g)) (length us)"
  shows "appendUTXOs g us tx = (Inl (Error ''utxo tree flushes.''), g, tx)"
  using assms by (simp add: appendUTXOs_def Let_def maxSize_def)

lemma appendUTXOs_ok:
  assumes "utxoTree g = Some ut" and "0 < utxoSubTreeSize (config g)"
    and "latestLeafIndex ut + paddedLen (utxoSubTreeSize (config g)) (length us) \<le> 2 ^ depth ut"
  shows "\<exists>ut' cache' tx'.
           appendUTXOs g us tx =
             (Inr (tid (metadata ut)), g\<lparr>utxoTree := Some ut', treeCache := cache'\<rparr>, tx') \<and>
           latestLeafIndex ut' =
             latestLeafIndex ut + paddedLen (utxoSubTreeSize (config g)) (length us) \<and>
           depth ut' = depth ut \<and>
           filter isNullifierOp tx' = filter isNullifierOp tx"
proof -
  let ?total = "paddedLen (utxoSubTreeSize (config g)) (length us)"
  let ?padded = "us @ replicate (?total - length us) zeroLeaf"
  obtain t' c' x' where a: "append ut (treeCache g) ?padded tx = (t', c', x')"
    by (cases "append ut (treeCache g) ?padded tx") auto
  have len: "length ?padded = ?total" using paddedLen_ge [OF assms(2), of "length us"] by simp
  from append_facts [OF a] len assms a show ?thesis
    by (intro exI [of _ t'] exI [of _ c'] exI [of _ x'])
       (simp add: appendUTXOs_def Let_def maxSize_def latestLeafIndex_def)
qed

lemma appendWithdrawals_full:
  assumes "withdrawalTree g = Some wt"
    and "2 ^ depth wt < latestLeafIndex wt + paddedLen (withdrawalSubTreeSize (config g)) (length ws)"
  shows "appendWithdrawals g ws tx = (Inl (Error ''withdrawal tree flushes''), g, tx)"
  using assms by (simp add: appendWithdrawals_def Let_def maxSize_def)

lemma appendWithdrawals_ok:
  assumes "withdrawalTree g = Some wt" and "0 < withdrawalSubTreeSize (config g)"
    and "latestLeafIndex wt + paddedLen (withdrawalSubTreeSize (config g)) (length ws) \<le> 2 ^ depth wt"
  shows "\<exists>wt' cache' tx'.
           appendWithdrawals g ws tx =
             (Inr (tid (metadata wt)), g\<lparr>withdrawalTree := Some wt', treeCache := cache'\<rparr>, tx') \<and>
           latestLeafIndex wt' =
             latestLeafIndex wt + paddedLen (withdrawalSubTreeSize (config g)) (length ws) \<and>
           depth wt' = depth wt \<and>
           filter isNullifierOp tx' = filter isNullifierOp tx"
proof -
  let ?total = "paddedLen (withdrawalSubTreeSize (config g)) (length ws)"
  let ?padded = "ws @ replicate (?total - length ws) zeroLeaf"
  obtain t' c' x' where a: "append wt (treeCache g) ?padded tx = (t', c', x')"
    by (cases "append wt (treeCache g) ?padded tx") auto
  have len: "length ?padded = ?total" using paddedLen_ge [OF assms(2), of "length ws"] by simp
  from append_facts [OF a] len assms a show ?thesis
    by (intro exI [of _ t'] exI [of _ c'] exI [of _ x'])
       (simp add: appendWithdrawals_def Let_def maxSize_def latestLeafIndex_def)
qed


lemma markAsNullified_frame:
  assumes "markAsNullified g ns tx = (g', tx')"
  shows "utxoTree g' = utxoTree g" and "withdrawalTree g' = withdrawalTree g"
    and "config g' = config g" and "db g' = db g" and "treeCache g' = treeCache g"
  using assms by (auto simp: markAsNullified_def split: option.splits prod.splits)

lemma markAsNullified_absent:
  "nullifierTree g = None \<Longrightarrow> markAsNullified g ns tx = (g, tx)"
  by (simp add: markAsNullified_def)

lemma recordBootstrap_ok:
  assumes "utxoTree g = Some ut" and "withdrawalTree g = Some wt"
  shows "\<exists>tx'. recordBootstrap g tx hdr = Inr tx' \<and>
           filter isNullifierOp tx' = filter isNullifierOp tx"
  using assms by (auto simp: recordBootstrap_def Let_def isNullifierOp_def split: option.splits)

lemma applyGrovePatch_utxo_full:
  assumes "utxoTree g = Some ut"
    and "2 ^ depth ut < latestLeafIndex ut + paddedLen (utxoSubTreeSize (config g)) (length (utxos P))"
  shows "applyGrovePatch g P tx = (Inl (TreeFull UTXO), g, tx)"
  using appendUTXOs_full [OF assms, of tx] by (simp add: applyGrovePatch_def TreeFull_def)

lemma applyGrovePatch_withdrawal_full:
  assumes "utxoTree g = Some ut" and "withdrawalTree g = Some wt"
    and "0 < utxoSubTreeSize (config g)"
    and "latestLeafIndex ut + paddedLen (utxoSubTreeSize (config g)) (length (utxos P)) \<le> 2 ^ depth ut"
    and "2 ^ depth wt < latestLeafIndex wt
           + paddedLen (withdrawalSubTreeSize (config g)) (length (withdrawals P))"
  shows "\<exists>ut' cache' tx'.
           applyGrovePatch g P tx =
             (Inl (TreeFull WITHDRAWAL), g\<lparr>utxoTree := Some ut', treeCache := cache'\<rparr>, tx')"
proof -
  from appendUTXOs_ok [OF assms(1,3,4), of tx] obtain ut' cache' tx' where
    u: "appendUTXOs g (utxos P) tx =
          (Inr (tid (metadata ut)), g\<lparr>utxoTree := Some ut', treeCache := cache'\<rparr>, tx')"
    by blast
  let ?g1 = "g\<lparr>utxoTree := Some ut', treeCache := cache'\<rparr>"
  have "appendWithdrawals ?g1 (withdrawals P) tx' = (Inl (Error ''withdrawal tree flushes''), ?g1, tx')"
    using assms(2,5) by (intro appendWithdrawals_full [of _ wt]) simp_all
  with u show ?thesis
    by (intro exI [of _ ut'] exI [of _ cache'] exI [of _ tx'])
       (simp add: applyGrovePatch_def TreeFull_def)
qed

lemma applyGrovePatch_ok:
  assumes "utxoTree g = Some ut" and "withdrawalTree g = Some wt"
    and "0 < utxoSubTreeSize (config g)" and "0 < withdrawalSubTreeSize (config g)"
    and "latestLeafIndex ut + paddedLen (utxoSubTreeSize (config g)) (length (utxos P)) \<le> 2 ^ depth ut"
    and "latestLeafIndex wt + paddedLen (withdrawalSubTreeSize (config g)) (length (withdrawals P))
           \<le> 2 ^ depth wt"
  shows "\<exists>g' tx' ut' wt'.
           applyGrovePatch g P tx = (Inr (tid (metadata ut), tid (metadata wt)), g', tx') \<and>
           utxoTree g' = Some ut' \<and> withdrawalTree g' = Some wt' \<and>
           latestLeafIndex ut' =
             latestLeafIndex ut + paddedLen (utxoSubTreeSize (config g)) (length (utxos P)) \<and>
           latestLeafIndex wt' =
             latestLeafIndex wt
               + paddedLen (withdrawalSubTreeSize (config g)) (length (withdrawals P)) \<and>
           depth ut' = depth ut \<and> depth wt' = depth wt \<and>
           (nullifierTree g = None \<longrightarrow>
              nullifierTree g' = None \<and> filter isNullifierOp tx' = filter isNullifierOp tx)"
proof -
  from appendUTXOs_ok [OF assms(1,3,5), of tx] obtain ut' c1 tx1 where
    u: "appendUTXOs g (utxos P) tx =
          (Inr (tid (metadata ut)), g\<lparr>utxoTree := Some ut', treeCache := c1\<rparr>, tx1)"
    and ui: "latestLeafIndex ut' =
               latestLeafIndex ut + paddedLen (utxoSubTreeSize (config g)) (length (utxos P))"
    and ud: "depth ut' = depth ut"
    and ux: "filter isNullifierOp tx1 = filter isNullifierOp tx"
    by blast
  let ?g1 = "g\<lparr>utxoTree := Some ut', treeCache := c1\<rparr>"
  have "\<exists>wt' cache' tx'.
          appendWithdrawals ?g1 (withdrawals P) tx1 =
            (Inr (tid (metadata wt)), ?g1\<lparr>withdrawalTree := Some wt', treeCache := cache'\<rparr>, tx') \<and>
          latestLeafIndex wt' =
            latestLeafIndex wt + paddedLen (withdrawalSubTreeSize (config ?g1)) (length (withdrawals P)) \<and>
          depth wt' = depth wt \<and> filter isNullifierOp tx' = filter isNullifierOp tx1"
    using assms(2,4,6) by (intro appendWithdrawals_ok) simp_all
  then obtain wt' c2 tx2 where
    w: "appendWithdrawals ?g1 (withdrawals P) tx1 =
          (Inr (tid (metadata wt)), ?g1\<lparr>withdrawalTree := Some wt', treeCache := c2\<rparr>, tx2)"
    and wi: "latestLeafIndex wt' =
               latestLeafIndex wt
                 + paddedLen (withdrawalSubTreeSize (config g)) (length (withdrawals P))"
    and wd: "depth wt' = depth wt"
    and wx: "filter isNullifierOp tx2 = filter isNullifierOp tx1"
    by auto
  let ?g2 = "?g1\<lparr>withdrawalTree := Some wt', treeCache := c2\<rparr>"
  obtain g3 tx3 where m: "markAsNullified ?g2 (nullifiers P) tx2 = (g3, tx3)"
    by (cases "markAsNullified ?g2 (nullifiers P) tx2") auto
  have g3: "utxoTree g3 = Some ut'" "withdrawalTree g3 = Some wt'" "config g3 = config g"
    using markAsNullified_frame [OF m] by simp_all
  have absent: "nullifierTree g = None \<Longrightarrow> g3 = ?g2 \<and> tx3 = tx2"
    using m markAsNullified_absent [of ?g2 "nullifiers P" tx2] by simp
  from recordBootstrap_ok [OF g3(1,2), of tx3 "header P"] obtain tx4 where
    r: "recordBootstrap g3 tx3 (header P) = Inr tx4"
    and rx: "filter isNullifierOp tx4 = filter isNullifierOp tx3"
    by blast
  show ?thesis
  proof (cases "fullSync (config g)")
    case True
    with u w m r g3 have "applyGrovePatch g P tx = (Inr (tid (metadata ut), tid (metadata wt)), g3, tx4)"
      by (simp add: applyGrovePatch_def)
    with g3 ui wi ud wd absent ux wx rx show ?thesis by auto
  next
    case False
    with u w m g3 have "applyGrovePatch g P tx = (Inr (tid (metadata ut), tid (metadata wt)), g3, tx3)"
      by (simp add: applyGrovePatch_def)
    with g3 ui wi ud wd absent ux wx show ?thesis by auto
  qed
qed

lemma appendUTXOs_TreeFull_iff:
  assumes "utxoTree g = Some ut" and "0 < utxoSubTreeSize (config g)"
  shows "fst (appendUTXOs g us tx) = Inl (TreeFull UTXO) \<longleftrightarrow>
           maxSize ut < latestLeafIndex ut + paddedLen (utxoSubTreeSize (config g)) (length us)"
proof (cases "maxSize ut < latestLeafIndex ut + paddedLen (utxoSubTreeSize (config g)) (length us)")
  case True
  with appendUTXOs_full [OF assms(1), of us tx] show ?thesis
    by (simp add: maxSize_def TreeFull_def)
next
  case False
  with appendUTXOs_ok [OF assms, of us tx] show ?thesis
    by (auto simp: maxSize_def)
qed

lemma appendWithdrawals_TreeFull_iff:
  assumes "withdrawalTree g = Some wt" and "0 < withdrawalSubTreeSize (config g)"
  shows "fst (appendWithdrawals g ws tx) = Inl (TreeFull WITHDRAWAL) \<longleftrightarrow>
           maxSize wt < latestLeafIndex wt
             + paddedLen (withdrawalSubTreeSize (config g)) (length ws)"
proof (cases "maxSize wt < latestLeafIndex wt
                + paddedLen (withdrawalSubTreeSize (config g)) (length ws)")
  case True
  with appendWithdrawals_full [OF assms(1), of ws tx] show ?thesis
    by (simp add: maxSize_def TreeFull_def)
next
  case False
  with appendWithdrawals_ok [OF assms, of ws tx] show ?thesis
    by (auto simp: maxSize_def)
qed

lemma appendUTXOs_nullifierTree:
  "nullifierTree (fst (snd (appendUTXOs g us tx))) = nullifierTree g"
  by (simp add: appendUTXOs_def Let_def split: option.splits prod.splits)

lemma appendWithdrawals_nullifierTree:
  "nullifierTree (fst (snd (appendWithdrawals g ws tx))) = nullifierTree g"
  by (simp add: appendWithdrawals_def Let_def split: option.splits prod.splits)

lemma applyGrovePatch_light_nullifiers:
  assumes "nullifierTree g = None"
  shows "applyGrovePatch g (P\<lparr>nullifiers := ns\<rparr>) tx = applyGrovePatch g P tx"
proof -
  obtain r1 g1 tx1 where u: "appendUTXOs g (utxos P) tx = (r1, g1, tx1)"
    by (cases "appendUTXOs g (utxos P) tx") auto
  obtain r2 g2 tx2 where w: "appendWithdrawals g1 (withdrawals P) tx1 = (r2, g2, tx2)"
    by (cases "appendWithdrawals g1 (withdrawals P) tx1") auto
  from u assms appendUTXOs_nullifierTree [of g "utxos P" tx] have "nullifierTree g1 = None" by simp
  with w appendWithdrawals_nullifierTree [of g1 "withdrawals P" tx1]
  have "nullifierTree g2 = None" by simp
  then have "markAsNullified g2 xs tx2 = (g2, tx2)" for xs by (rule markAsNullified_absent)
  with u w show ?thesis
    by (cases r1; cases r2) (simp_all add: applyGrovePatch_def)
qed

lemma dryAppend_index: "index (dryAppend t ls) = index (data t) + length ls"
  by (simp add: dryAppend_def split: prod.splits)

section \<open>Facts about the database and the bootstrap\<close>

lemma findOne_Val: "findOne table wh = Val r \<Longrightarrow> wh r \<and> r \<in> set table"
proof -
  assume a: "findOne table wh = Val r"
  then obtain rs where "filter wh table = r # rs"
    by (cases "filter wh table") (auto simp: findOne_def findMany_def)
  then have "r \<in> set (filter wh table)" by simp
  then show ?thesis by simp
qed

lemma findOne_Undefined: "findOne table wh = Undefined \<longleftrightarrow> (\<forall>r\<in>set table. \<not> wh r)"
proof (cases "filter wh table")
  case Nil
  then show ?thesis by (simp add: findOne_def findMany_def filter_empty_conv)
next
  case (Cons a list)
  then have "a \<in> set (filter wh table)" by simp
  then have "a \<in> set table \<and> wh a" by simp
  with Cons show ?thesis by (auto simp: findOne_def findMany_def)
qed

lemma findOne_not_Null: "findOne table wh \<noteq> Null"
  by (cases "filter wh table") (auto simp: findOne_def findMany_def)

lemma filter_upsert_same:
  assumes "wh doc" and "\<And>r. wh (upd r) = wh r"
  shows "filter wh (upsert table wh upd doc) =
           (if filter wh table = [] then [doc] else map upd (filter wh table))"
proof -
  have m: "filter wh (map (\<lambda>r. if wh r then upd r else r) xs) = map upd (filter wh xs)" for xs
    by (induction xs) (simp_all add: assms(2))
  have e: "filter wh table = [] \<Longrightarrow> filter wh (table @ [doc]) = [doc]"
    using assms(1) by simp
  show ?thesis
    by (simp add: upsert_def update_def create_def m e assms(1))
qed

lemma filter_upsert_other:
  assumes "\<not> wh' doc" and "\<And>r. wh' (upd r) = wh' r" and "\<And>r. wh r \<Longrightarrow> \<not> wh' r"
  shows "filter wh' (upsert table wh upd doc) = filter wh' table"
proof -
  have m: "filter wh' (map (\<lambda>r. if wh r then upd r else r) xs) = filter wh' xs" for xs
    by (induction xs) (auto simp: assms(2) dest: assms(3))
  show ?thesis
    by (simp add: upsert_def update_def create_def m assms(1))
qed

lemma findOne_upsert_lightTree:
  "\<exists>row. findOne (upsert table (\<lambda>row. species row = sp)
                    (\<lambda>row. row\<lparr>root := r, index := i, siblings := sibs,
                                startIdx := i, endIdx := i\<rparr>)
                    \<lparr>root = r, index = i, siblings = sibs, tid = n, species = sp,
                     startIdx = i, endIdx = i\<rparr>)
                 (\<lambda>row. species row = sp) = Val row \<and>
         root row = r \<and> index row = i \<and> siblings row = sibs \<and> species row = sp"
proof -
  let ?wh = "\<lambda>row::lightTree. species row = sp"
  let ?upd = "\<lambda>row::lightTree. row\<lparr>root := r, index := i, siblings := sibs,
                                      startIdx := i, endIdx := i\<rparr>"
  let ?doc = "\<lparr>root = r, index = i, siblings = sibs, tid = n, species = sp,
               startIdx = i, endIdx = i\<rparr>"
  have f: "filter ?wh (upsert table ?wh ?upd ?doc) =
             (if filter ?wh table = [] then [?doc] else map ?upd (filter ?wh table))"
    by (rule filter_upsert_same) simp_all
  show ?thesis
  proof (cases "filter ?wh table")
    case Nil
    with f show ?thesis by (simp add: findOne_def findMany_def)
  next
    case (Cons x xs)
    then have "x \<in> set (filter ?wh table)" by simp
    then have "species x = sp" by simp
    with f Cons show ?thesis by (simp add: findOne_def findMany_def)
  qed
qed

lemma bootstrapUtxoTree_invalid:
  assumes "\<not> startingLeafProof (utxoHasher (config g)) (root p) (index p) (siblings p)"
  shows "bootstrapUtxoTree g (Some p) = (Inl InvalidBootstrapProof, g)"
  using assms by (simp add: bootstrapUtxoTree_def Let_def InvalidBootstrapProof_def)

lemma bootstrapWithdrawalTree_invalid:
  assumes "\<not> startingLeafProof (withdrawalHasher (config g)) (root p) (index p) (siblings p)"
  shows "bootstrapWithdrawalTree g (Some p) = (Inl InvalidBootstrapProof, g)"
  using assms by (simp add: bootstrapWithdrawalTree_def Let_def InvalidBootstrapProof_def)

lemma bootstrapUtxoTree_valid:
  assumes "startingLeafProof (utxoHasher (config g)) (root p) (index p) (siblings p)"
  shows "\<exists>row d.
           bootstrapUtxoTree g (Some p) =
             (Inr (Val row, UtxoTree_from row (utxoHasher (config g)) (forceUpdate (config g))
                              (fullSync (config g))),
              g\<lparr>db := d\<rparr>) \<and>
           findOne (LightTree d) (\<lambda>row. species row = UTXO) = Val row \<and>
           root row = root p \<and> index row = index p \<and> siblings row = siblings p \<and>
           filter (\<lambda>row. species row = WITHDRAWAL) (LightTree d) =
             filter (\<lambda>row. species row = WITHDRAWAL) (LightTree (db g))"
proof -
  let ?table = "upsert (LightTree (db g)) (\<lambda>row. species row = UTXO)
                  (\<lambda>row. row\<lparr>root := root p, index := index p, siblings := siblings p,
                              startIdx := index p, endIdx := index p\<rparr>)
                  \<lparr>root = root p, index = index p, siblings = siblings p,
                   tid = length (LightTree (db g)), species = UTXO,
                   startIdx = index p, endIdx = index p\<rparr>"
  let ?d = "(db g)\<lparr>LightTree := ?table\<rparr>"
  from findOne_upsert_lightTree [where table = "LightTree (db g)" and sp = UTXO and r = "root p"
      and i = "index p" and sibs = "siblings p" and n = "length (LightTree (db g))"]
  obtain row where row: "findOne ?table (\<lambda>row. species row = UTXO) = Val row"
      "root row = root p" "index row = index p" "siblings row = siblings p"
    by blast
  have other: "filter (\<lambda>row. species row = WITHDRAWAL) ?table =
                 filter (\<lambda>row. species row = WITHDRAWAL) (LightTree (db g))"
    by (rule filter_upsert_other) auto
  from assms row have "bootstrapUtxoTree g (Some p) =
             (Inr (Val row, UtxoTree_from row (utxoHasher (config g)) (forceUpdate (config g))
                              (fullSync (config g))),
              g\<lparr>db := ?d\<rparr>)"
    by (simp add: bootstrapUtxoTree_def Let_def)
  with row other show ?thesis
    by (intro exI [of _ row] exI [of _ ?d]) simp
qed

lemma bootstrapWithdrawalTree_valid:
  assumes "startingLeafProof (withdrawalHasher (config g)) (root p) (index p) (siblings p)"
  shows "\<exists>row d.
           bootstrapWithdrawalTree g (Some p) =
             (Inr (Val row, WithdrawalTree_from row (withdrawalHasher (config g))
                              (forceUpdate (config g)) (fullSync (config g))),
              g\<lparr>db := d\<rparr>) \<and>
           findOne (LightTree d) (\<lambda>row. species row = WITHDRAWAL) = Val row \<and>
           root row = root p \<and> index row = index p \<and> siblings row = siblings p \<and>
           filter (\<lambda>row. species row = UTXO) (LightTree d) =
             filter (\<lambda>row. species row = UTXO) (LightTree (db g))"
proof -
  let ?table = "upsert (LightTree (db g)) (\<lambda>row. species row = WITHDRAWAL)
                  (\<lambda>row. row\<lparr>root := root p, index := index p, siblings := siblings p,
                              startIdx := index p, endIdx := index p\<rparr>)
                  \<lparr>root = root p, index = index p, siblings = siblings p,
                   tid = length (LightTree (db g)), species = WITHDRAWAL,
                   startIdx = index p, endIdx = index p\<rparr>"
  let ?d = "(db g)\<lparr>LightTree := ?table\<rparr>"
  from findOne_upsert_lightTree [where table = "LightTree (db g)" and sp = WITHDRAWAL
      and r = "root p" and i = "index p" and sibs = "siblings p"
      and n = "length (LightTree (db g))"]
  obtain row where row: "findOne ?table (\<lambda>row. species row = WITHDRAWAL) = Val row"
      "root row = root p" "index row = index p" "siblings row = siblings p"
    by blast
  have other: "filter (\<lambda>row. species row = UTXO) ?table =
                 filter (\<lambda>row. species row = UTXO) (LightTree (db g))"
    by (rule filter_upsert_other) auto
  from assms row have "bootstrapWithdrawalTree g (Some p) =
             (Inr (Val row, WithdrawalTree_from row (withdrawalHasher (config g))
                              (forceUpdate (config g)) (fullSync (config g))),
              g\<lparr>db := ?d\<rparr>)"
    by (simp add: bootstrapWithdrawalTree_def Let_def)
  with row other show ?thesis
    by (intro exI [of _ row] exI [of _ ?d]) simp
qed

section \<open>Facts about the frontier\<close>

lemma fold_levelStep_frontier:
  assumes "length sibs = D" and "D \<le> length (preHash h)" and "k \<le> D"
  shows "fst (fold (levelStep h D i) [k..<D] (cur, sibs, nodes)) =
           foldFrontierFrom h (drop k sibs) (drop k (preHash h)) (i div 2 ^ k) cur \<and>
         fst (snd (fold (levelStep h D i) [k..<D] (cur, sibs, nodes))) =
           take k sibs @ nextFrontier h (drop k sibs) (drop k (preHash h)) (i div 2 ^ k) cur"
  using assms
proof (induction "D - k" arbitrary: k cur sibs nodes)
  case 0
  then show ?case by simp
next
  case (Suc n)
  then have k: "k < D" by simp
  have up: "[k..<D] = k # [Suc k..<D]" using k by (simp add: upt_conv_Cons)
  have ds: "drop k sibs = sibs ! k # drop (Suc k) sibs"
    using k Suc.prems(1) by (simp add: Cons_nth_drop_Suc)
  have dz: "drop k (preHash h) = preHash h ! k # drop (Suc k) (preHash h)"
    using k Suc.prems(2) by (simp add: Cons_nth_drop_Suc)
  have "i div 2 ^ Suc k = i div (2 ^ k * 2)" by (simp add: mult.commute)
  then have dv: "i div 2 ^ k div 2 = i div 2 ^ Suc k"
    by (simp only: div_mult2_eq)
  have n: "n = D - Suc k" using Suc.hyps(2) by simp
  show ?case
  proof (cases "bitAt i k")
    case True
    have st: "levelStep h D i k (cur, sibs, nodes) =
                (parentOf h (sibs ! k) cur, sibs,
                 nodes @ [((2 ^ D + i) div 2 ^ k, cur), (siblingOf ((2 ^ D + i) div 2 ^ k), sibs ! k)])"
      using True by (simp add: levelStep_def Let_def)
    from Suc.hyps(1) [OF n Suc.prems(1) Suc.prems(2), of "parentOf h (sibs ! k) cur"] k True
    show ?thesis
      by (simp add: up st ds dz dv bitAt_def take_Suc_conv_app_nth Suc.prems(1))
  next
    case False
    have st: "levelStep h D i k (cur, sibs, nodes) =
                (parentOf h cur (preHash h ! k), sibs[k := cur],
                 nodes @ [((2 ^ D + i) div 2 ^ k, cur),
                          (siblingOf ((2 ^ D + i) div 2 ^ k), preHash h ! k)])"
      using False by (simp add: levelStep_def Let_def)
    have l: "length (sibs[k := cur]) = D" using Suc.prems(1) by simp
    from Suc.hyps(1) [OF n l Suc.prems(2), of "parentOf h cur (preHash h ! k)"] k False
    show ?thesis
      by (simp add: up st ds dz dv bitAt_def take_Suc_conv_app_nth Suc.prems(1) upd_conv_take_nth_drop)
  qed
qed

lemma appendLeaf_frontier:
  assumes "length sibs = D" and "D \<le> length (preHash h)"
    and "appendLeaf h D i x sibs = (node, sibs', nodes)"
  shows "node = foldFrontierFrom h sibs (preHash h) i x"
    and "sibs' = nextFrontier h sibs (preHash h) i x"
  using fold_levelStep_frontier [OF assms(1,2), of 0 i x "[]"] assms(3)
  by (simp_all add: appendLeaf_def)

lemma refold_same:
  "foldFrontierFrom h (nextFrontier h ss zs j y) zs j y = foldFrontierFrom h ss zs j y"
  by (induction h ss zs j y rule: nextFrontier.induct) simp_all

lemma refold_next:
  assumes "chainOk (parentOf h) zs" and "length ss < length zs" and "i + 1 < 2 ^ length ss"
  shows "foldFrontierFrom h (nextFrontier h ss zs i x) zs (i + 1) (hd zs) =
           foldFrontierFrom h ss zs i x"
  using assms
proof (induction ss arbitrary: zs i x)
  case Nil
  then show ?case by simp
next
  case (Cons s ss)
  from Cons.prems(2) obtain z z' zs' where zs: "zs = z # z' # zs'"
    by (cases zs; cases "tl zs") auto
  with Cons.prems(1) have z': "z' = parentOf h z z" and ch: "chainOk (parentOf h) (z' # zs')"
    by auto
  show ?case
  proof (cases "odd i")
    case False
    then have "(i + 1) div 2 = i div 2" by presburger
    with False show ?thesis by (simp add: zs refold_same)
  next
    case True
    then have d: "(i + 1) div 2 = i div 2 + 1" by presburger
    from True Cons.prems(3) have b: "i div 2 + 1 < 2 ^ length ss" by (simp, presburger)
    from Cons.prems(2) have l: "length ss < length (z' # zs')" by (simp add: zs)
    from Cons.IH [OF ch l b, of "parentOf h s x"] True d z' show ?thesis
      by (simp add: zs)
  qed
qed

lemma appendLeaf_step:
  assumes ok: "preHashOk h D" and len: "length (siblings d) = D" and lt: "index d < 2 ^ D"
    and a: "appendLeaf h D (index d) x (siblings d) = (node, sibs', nodes)"
  shows "length sibs' = D"
    and "frontierHolds h \<lparr>root = node, index = Suc (index d), siblings = sibs'\<rparr>"
    and "frontierHolds h d \<Longrightarrow> x = 0 \<Longrightarrow> node = root d"
proof -
  from ok have pl: "D \<le> length (preHash h)" and z0: "preHash h ! 0 = 0"
    and ch: "chainOk (parentOf h) (preHash h)" and pl': "D < length (preHash h)"
    by (simp_all add: preHashOk_def)
  note f = appendLeaf_frontier [OF len pl a]
  show l: "length sibs' = D" using appendLeaf_length [OF a] len by simp
  show "frontierHolds h \<lparr>root = node, index = Suc (index d), siblings = sibs'\<rparr>"
  proof (cases "Suc (index d) < 2 ^ D")
    case True
    have hd: "hd (preHash h) = preHash h ! 0" using pl' by (cases "preHash h") simp_all
    from refold_next [OF ch, of "siblings d" "index d" x] True len pl' f hd
    show ?thesis by (simp add: frontierHolds_def foldFrontier_def)
  next
    case False
    with l show ?thesis by (simp add: frontierHolds_def)
  qed
  show "node = root d" if "frontierHolds h d" and "x = 0"
    using that f(1) lt len z0 by (simp add: frontierHolds_def foldFrontier_def)
qed

lemma appendLeaves_frontier:
  assumes "preHashOk (treeHasher t) (depth t)" and "length (siblings d) = depth t"
    and "frontierHolds (treeHasher t) d" and "index d + length ls \<le> 2 ^ depth t"
  shows "frontierHolds (treeHasher t) (fst (appendLeaves t ls (d, cache, tx))) \<and>
         length (siblings (fst (appendLeaves t ls (d, cache, tx)))) = depth t"
  using assms(2-)
proof (induction ls arbitrary: d cache tx)
  case Nil
  then show ?case by simp
next
  case (Cons l ls)
  obtain node sibs' nodes where
    a: "appendLeaf (treeHasher t) (depth t) (index d) (hash l) (siblings d) = (node, sibs', nodes)"
    by (cases "appendLeaf (treeHasher t) (depth t) (index d) (hash l) (siblings d)") auto
  from Cons.prems(3) have lt: "index d < 2 ^ depth t" by simp
  note s = appendLeaf_step [OF assms(1) Cons.prems(1) lt a]
  let ?d = "\<lparr>root = node, index = Suc (index d), siblings = sibs'\<rparr>"
  have "index ?d + length ls \<le> 2 ^ depth t" using Cons.prems(3) by simp
  with Cons.IH [of ?d] s(1,2) a show ?case by simp
qed

lemma appendLeaves_zero:
  assumes "preHashOk (treeHasher t) (depth t)" and "length (siblings d) = depth t"
    and "frontierHolds (treeHasher t) d" and "index d + n \<le> 2 ^ depth t"
  shows "root (fst (appendLeaves t (replicate n zeroLeaf) (d, cache, tx))) = root d"
  using assms(2-)
proof (induction n arbitrary: d cache tx)
  case 0
  then show ?case by simp
next
  case (Suc n)
  obtain node sibs' nodes where
    a: "appendLeaf (treeHasher t) (depth t) (index d) 0 (siblings d) = (node, sibs', nodes)"
    by (cases "appendLeaf (treeHasher t) (depth t) (index d) 0 (siblings d)") auto
  from Suc.prems(3) have lt: "index d < 2 ^ depth t" by simp
  note s = appendLeaf_step [OF assms(1) Suc.prems(1) lt a]
  let ?d = "\<lparr>root = node, index = Suc (index d), siblings = sibs'\<rparr>"
  have "index ?d + n \<le> 2 ^ depth t" using Suc.prems(3) by simp
  with Suc.IH [of ?d] s(1,2) s(3) [OF Suc.prems(2)] a show ?case
    by (simp add: zeroLeaf_def)
qed

lemma appendLeaves_append:
  "appendLeaves t (ls @ ms) acc = appendLeaves t ms (appendLeaves t ls acc)"
proof (induction ls arbitrary: acc)
  case Nil
  then show ?case by simp
next
  case (Cons l ls)
  then show ?case by (cases acc) (simp split: prod.splits)
qed

lemma appendLeaves_untracked:
  "fst (appendLeaves t (map (\<lambda>l. l\<lparr>shouldTrack := Some False\<rparr>) ls) (d, cache, tx)) =
   fst (appendLeaves t ls (d, cache', tx'))"
proof (induction ls arbitrary: d cache tx cache' tx')
  case Nil
  then show ?case by simp
next
  case (Cons l ls)
  then show ?case by (simp split: prod.splits)
qed

lemma append_padded:
  assumes ok: "frontierOk t"
    and fits: "latestLeafIndex t + (length ls + n) \<le> maxSize t"
  shows "treeRoot (fst (append t cache (ls @ replicate n zeroLeaf) tx)) =
           root (dryAppend t (map (\<lambda>l. l\<lparr>shouldTrack := Some False\<rparr>) ls)) \<and>
         frontierOk (fst (append t cache (ls @ replicate n zeroLeaf) tx))"
proof -
  from ok have p: "preHashOk (treeHasher t) (depth t)"
    and fh: "frontierHolds (treeHasher t) (data t)"
    by (simp_all add: frontierOk_def)
  have len: "length (siblings (data t)) = depth t" by (simp add: depth_def)
  obtain d1 c1 x1 where r: "appendLeaves t ls (data t, cache, tx) = (d1, c1, x1)"
    by (cases "appendLeaves t ls (data t, cache, tx)") auto
  have f1: "index (data t) + length ls \<le> 2 ^ depth t"
    using fits by (simp add: latestLeafIndex_def maxSize_def)
  from appendLeaves_frontier [OF p len fh f1, of cache tx] r
  have d1: "frontierHolds (treeHasher t) d1" "length (siblings d1) = depth t" by simp_all
  from appendLeaves_index [of t ls "data t" cache tx] r
  have i1: "index d1 = index (data t) + length ls" by simp
  have f2: "index d1 + n \<le> 2 ^ depth t"
    using fits i1 by (simp add: latestLeafIndex_def maxSize_def)
  let ?d2 = "fst (appendLeaves t (replicate n zeroLeaf) (d1, c1, x1))"
  from appendLeaves_zero [OF p d1(2) d1(1) f2, of c1 x1]
  have r2: "root ?d2 = root d1" .
  from appendLeaves_frontier [OF p d1(2) d1(1), of "replicate n zeroLeaf" c1 x1] f2
  have d2: "frontierHolds (treeHasher t) ?d2" "length (siblings ?d2) = depth t" by simp_all
  have dat: "data (fst (append t cache (ls @ replicate n zeroLeaf) tx)) = ?d2"
    by (simp add: append_def appendLeaves_append r split: prod.splits)
  have rest: "treeHasher (fst (append t cache (ls @ replicate n zeroLeaf) tx)) = treeHasher t"
    by (simp add: append_def split: prod.splits)
  from appendLeaves_untracked [of t ls "data t" "[]" "[]" cache tx] r
  have dry: "root (dryAppend t (map (\<lambda>l. l\<lparr>shouldTrack := Some False\<rparr>) ls)) = root d1"
    by (auto simp: dryAppend_def split: prod.splits)
  from dat rest r2 dry d2 p show ?thesis
    by (simp add: treeRoot_def frontierOk_def depth_def)
qed

lemma foldUp_frontier:
  assumes "\<forall>j<length ss. bitAt i (k + j) \<or> ss ! j = zs ! j" and "length ss \<le> length zs"
  shows "foldUp h i k ss node = foldFrontierFrom h ss zs (i div 2 ^ k) node"
  using assms
proof (induction ss arbitrary: k zs node)
  case Nil
  then show ?case by simp
next
  case (Cons s ss)
  from Cons.prems(2) obtain z zs' where zs: "zs = z # zs'" by (cases zs) auto
  have "i div 2 ^ Suc k = i div (2 ^ k * 2)" by (simp add: mult.commute)
  then have dv: "i div 2 ^ k div 2 = i div 2 ^ Suc k" by (simp only: div_mult2_eq)
  have a: "\<forall>j<length ss. bitAt i (Suc k + j) \<or> ss ! j = zs' ! j"
  proof (intro allI impI)
    fix j assume "j < length ss"
    with Cons.prems(1) [rule_format, of "Suc j"] show "bitAt i (Suc k + j) \<or> ss ! j = zs' ! j"
      by (simp add: zs)
  qed
  from Cons.prems(2) have l: "length ss \<le> length zs'" by (simp add: zs)
  from Cons.prems(1) [rule_format, of 0] have b: "bitAt i k \<or> s = z" by (simp add: zs)
  from Cons.IH [OF a l] b show ?case
    by (auto simp: zs dv bitAt_def)
qed

lemma startingLeafProof_frontier:
  assumes "startingLeafProof h r i sibs" and "length sibs \<le> length (preHash h)"
  shows "frontierHolds h \<lparr>root = r, index = i, siblings = sibs\<rparr>"
proof -
  from assms(1) have a: "\<forall>j<length sibs. bitAt i (0 + j) \<or> sibs ! j = preHash h ! j"
    and v: "r = foldUp h i 0 sibs (preHash h ! 0)"
    by (simp_all add: startingLeafProof_def verifyProof_def list_all_iff)
  from foldUp_frontier [OF a assms(2), of h "preHash h ! 0"] v
  show ?thesis by (simp add: frontierHolds_def foldFrontier_def)
qed

lemma applyBootstrap_frontierOk:
  assumes "startingLeafProof (utxoHasher (config g)) (root up) (index up) (siblings up)"
    and "startingLeafProof (withdrawalHasher (config g)) (root wp) (index wp) (siblings wp)"
    and "preHashOk (utxoHasher (config g)) (length (siblings up))"
    and "preHashOk (withdrawalHasher (config g)) (length (siblings wp))"
  shows "\<exists>g' ut wt. applyBootstrap g up wp = (Inr (), g') \<and>
           utxoTree g' = Some ut \<and> withdrawalTree g' = Some wt \<and>
           frontierOk ut \<and> frontierOk wt"
proof -
  from bootstrapUtxoTree_valid [OF assms(1)] obtain urow d where
    u: "bootstrapUtxoTree g (Some up) =
          (Inr (Val urow, UtxoTree_from urow (utxoHasher (config g)) (forceUpdate (config g))
                            (fullSync (config g))),
           g\<lparr>db := d\<rparr>)"
    and ud: "root urow = root up" "index urow = index up" "siblings urow = siblings up"
    by blast
  let ?g1 = "g\<lparr>db := d\<rparr>"
  have "startingLeafProof (withdrawalHasher (config ?g1)) (root wp) (index wp) (siblings wp)"
    using assms(2) by simp
  from bootstrapWithdrawalTree_valid [OF this] obtain wrow d' where
    w: "bootstrapWithdrawalTree ?g1 (Some wp) =
          (Inr (Val wrow, WithdrawalTree_from wrow (withdrawalHasher (config g))
                            (forceUpdate (config g)) (fullSync (config g))),
           ?g1\<lparr>db := d'\<rparr>)"
    and wd: "root wrow = root wp" "index wrow = index wp" "siblings wrow = siblings wp"
    by auto
  let ?ut = "UtxoTree_from urow (utxoHasher (config g)) (forceUpdate (config g)) (fullSync (config g))"
  let ?wt = "WithdrawalTree_from wrow (withdrawalHasher (config g)) (forceUpdate (config g))
               (fullSync (config g))"
  from u w have r: "applyBootstrap g up wp =
      (Inr (), ?g1\<lparr>db := d', utxoTree := Some ?ut, withdrawalTree := Some ?wt\<rparr>)"
    by (simp add: applyBootstrap_def)
  have lu: "length (siblings up) \<le> length (preHash (utxoHasher (config g)))"
    and lw: "length (siblings wp) \<le> length (preHash (withdrawalHasher (config g)))"
    using assms(3,4) by (simp_all add: preHashOk_def)
  have fu: "frontierOk ?ut"
    using startingLeafProof_frontier [OF assms(1) lu] assms(3) ud
    by (simp add: frontierOk_def UtxoTree_from_def LightRollupTree_from_def depth_def)
  have fw: "frontierOk ?wt"
    using startingLeafProof_frontier [OF assms(2) lw] assms(4) wd
    by (simp add: frontierOk_def WithdrawalTree_from_def LightRollupTree_from_def depth_def)
  from r fu fw show ?thesis by simp
qed

lemma dryAppend_nil: "root (dryAppend t []) = treeRoot t"
  by (simp add: dryAppend_def treeRoot_def)

lemma applyGrovePatch_withdrawal_full_state:
  assumes "utxoTree g = Some ut" and "withdrawalTree g = Some wt"
    and "0 < utxoSubTreeSize (config g)"
    and "latestLeafIndex ut + paddedLen (utxoSubTreeSize (config g)) (length (utxos P)) \<le> 2 ^ depth ut"
    and "2 ^ depth wt < latestLeafIndex wt
           + paddedLen (withdrawalSubTreeSize (config g)) (length (withdrawals P))"
  shows "\<exists>ut' cache' tx'.
           applyGrovePatch g P tx =
             (Inl (TreeFull WITHDRAWAL), g\<lparr>utxoTree := Some ut', treeCache := cache'\<rparr>, tx') \<and>
           latestLeafIndex ut' =
             latestLeafIndex ut + paddedLen (utxoSubTreeSize (config g)) (length (utxos P)) \<and>
           tx' \<noteq> tx"
proof -
  let ?total = "paddedLen (utxoSubTreeSize (config g)) (length (utxos P))"
  let ?padded = "utxos P @ replicate (?total - length (utxos P)) zeroLeaf"
  obtain ut' cache' tx' where a: "append ut (treeCache g) ?padded tx = (ut', cache', tx')"
    by (cases "append ut (treeCache g) ?padded tx") auto
  have len: "length ?padded = ?total" using paddedLen_ge [OF assms(3), of "length (utxos P)"] by simp
  let ?g1 = "g\<lparr>utxoTree := Some ut', treeCache := cache'\<rparr>"
  have u: "appendUTXOs g (utxos P) tx = (Inr (tid (metadata ut')), ?g1, tx')"
    using assms(1,4) a by (simp add: appendUTXOs_def Let_def maxSize_def)
  have w: "appendWithdrawals ?g1 (withdrawals P) tx' = (Inl (Error ''withdrawal tree flushes''), ?g1, tx')"
    using assms(2,5) by (intro appendWithdrawals_full [of _ wt]) simp_all
  have i: "latestLeafIndex ut' = latestLeafIndex ut + ?total"
    using append_facts(1) [OF a] len by (simp add: latestLeafIndex_def)
  obtain d c x where al: "appendLeaves ut ?padded (data ut, treeCache g, tx) = (d, c, x)"
    by (cases "appendLeaves ut ?padded (data ut, treeCache g, tx)") auto
  have grow: "length tx \<le> length (snd (snd (appendLeaves t ls (d0, c0, x0))))" if "length tx \<le> length x0"
    for t ls d0 c0 x0
    using that by (induction ls arbitrary: d0 c0 x0) (auto split: prod.splits)
  from grow [of tx ut ?padded "data ut" "treeCache g"] al have "length tx \<le> length x" by simp
  with a al have "length tx < length tx'" by (auto simp: append_def)
  then have "tx' \<noteq> tx" by auto
  with u w i show ?thesis
    by (intro exI [of _ ut'] exI [of _ cache'] exI [of _ tx'])
       (simp add: applyGrovePatch_def TreeFull_def)
qed

section \<open>Facts about the dry patch\<close>



lemma dryPatchWith_in_place:
  "map_option latestLeafIndex (utxoTree bootstrapped) = Some 0 \<and>
   map_option latestLeafIndex
     (utxoTree (snd (dryPatchWith inPlaceDryAppend scratchDryRunNullify bootstrapped oneUtxo)))
     = Some 1"
  by code_simp

section \<open>Facts about the concrete groves\<close>

lemma genesisProof_ok:
  "startingLeafProof demoHasher (root genesisProof) (index genesisProof) (siblings genesisProof)"
  by (simp add: startingLeafProof_def verifyProof_def genesisProof_def demoHasher_def bitAt_def)

lemma bootstrapped_eq:
  "bootstrapped =
     \<lparr>db = \<lparr>LightTree =
               [\<lparr>root = 6, index = 0, siblings = [0, 1], tid = 0, species = UTXO,
                 startIdx = 0, endIdx = 0\<rparr>,
                \<lparr>root = 6, index = 0, siblings = [0, 1], tid = 1, species = WITHDRAWAL,
                 startIdx = 0, endIdx = 0\<rparr>],
             Utxo = [], Withdrawal = [], TreeNode = [], nullifierLeaves = []\<rparr>,
      config = demoConfig,
      utxoTree =
        Some \<lparr>metadata = \<lparr>root = 6, index = 0, siblings = [0, 1], tid = 0, species = UTXO,
                          startIdx = 0, endIdx = 0\<rparr>,
              data = \<lparr>root = 6, index = 0, siblings = [0, 1]\<rparr>,
              treeHasher = demoHasher, treeForceUpdate = False, treeFullSync = False,
              observed = []\<rparr>,
      withdrawalTree =
        Some \<lparr>metadata = \<lparr>root = 6, index = 0, siblings = [0, 1], tid = 1,
                          species = WITHDRAWAL, startIdx = 0, endIdx = 0\<rparr>,
              data = \<lparr>root = 6, index = 0, siblings = [0, 1]\<rparr>,
              treeHasher = demoHasher, treeForceUpdate = False, treeFullSync = False,
              observed = []\<rparr>,
      nullifierTree = None, treeCache = []\<rparr>"
  using genesisProof_ok
  by (simp add: bootstrapped_def applyBootstrap_def bootstrapUtxoTree_def
        bootstrapWithdrawalTree_def newGrove_def emptyDB_def demoConfig_def
        upsert_def update_def create_def findOne_def findMany_def UtxoTree_from_def
        WithdrawalTree_from_def LightRollupTree_from_def Let_def genesisProof_def)

lemma fullGrove_facts:
  "\<not> Option.is_none (utxoTree fullGrove)"
  "\<not> Option.is_none (withdrawalTree fullGrove)"
  "latestLeafIndex (the (utxoTree fullGrove)) = 4"
  "maxSize (the (utxoTree fullGrove)) = 4"
  "latestLeafIndex (the (withdrawalTree fullGrove)) = 0"
  "maxSize (the (withdrawalTree fullGrove)) = 4"
  "utxoSubTreeSize (config fullGrove) = 4"
  "withdrawalSubTreeSize (config fullGrove) = 2"
  by code_simp+

lemma provingGrove_utxo:
  "\<not> Option.is_none (utxoTree provingGrove)"
  "\<forall>r\<in>set (Utxo (db provingGrove)). utxoHash r \<noteq> 3"
  "findOne (Utxo (db provingGrove)) (\<lambda>r. utxoHash r = 2) = Val \<lparr>utxoHash = 2, utxoIndex = None\<rparr>"
  "findOne (Utxo (db provingGrove)) (\<lambda>r. utxoHash r = 4) = Val \<lparr>utxoHash = 4, utxoIndex = Some 1\<rparr>"
  "utxoMerkleProof provingGrove 4 = Inl (ProofUnavailable UTXO)"
  "utxoMerkleProof provingGrove 1 = Inr \<lparr>root = 10, index = 0, siblings = [0, 1], leaf = 1\<rparr>"
  by code_simp+

lemma provingGrove_withdrawal:
  "\<not> Option.is_none (withdrawalTree provingGrove)"
  "findOne (Withdrawal (db provingGrove)) (\<lambda>r. withdrawalHash r = 7)
     = Val \<lparr>withdrawalHash = 7, withdrawalIndex = Some 1\<rparr>"
  "findOne (Withdrawal (db provingGrove)) (\<lambda>r. withdrawalHash r = 8)
     = Val \<lparr>withdrawalHash = 8, withdrawalIndex = None\<rparr>"
  "withdrawalMerkleProof provingGrove 7 (Some 0)
     = Inr \<lparr>root = 34, index = 0, siblings = [0, 1], leaf = 7\<rparr>"
  by code_simp+

section \<open>Dry patch against the applied patch\<close>

text \<open>
  Claim C1.  For every initialized Grove whose trees are well-formed and every patch that
  fits in both trees, \<open>dryPatch\<close> returns a snapshot, \<open>applyGrovePatch\<close> succeeds, and
  the UTXO root and the withdrawal root of the snapshot taken after the patch equal the
  roots that \<open>dryPatch\<close> predicted, although \<open>dryPatch\<close> dry-appends the raw leaves only
  and \<open>applyGrovePatch\<close> appends the batch padded with zero leaves: a zero leaf is the
  empty leaf, and appending it to a well-formed frontier leaves the root as it is.  The
  trees after the patch are well-formed again, and the trees that \<open>applyBootstrap\<close>
  builds from accepted starting-leaf proofs are well-formed (lemma
  \<open>applyBootstrap_frontierOk\<close>), so the statement covers every Grove reached from a
  bootstrap by patches.
\<close>

theorem dryPatch_predicts_roots:
  assumes "utxoTree g = Some ut" and "withdrawalTree g = Some wt"
    and "0 < utxoSubTreeSize (config g)" and "0 < withdrawalSubTreeSize (config g)"
    and "frontierOk ut" and "frontierOk wt"
    and "latestLeafIndex ut + paddedLen (utxoSubTreeSize (config g)) (length (utxos P)) \<le> maxSize ut"
    and "latestLeafIndex wt + paddedLen (withdrawalSubTreeSize (config g)) (length (withdrawals P))
           \<le> maxSize wt"
  shows "\<exists>snap ids g' tx' snap' ut' wt'.
           dryPatch g P = (Inr snap, g) \<and>
           applyGrovePatch g P tx = (Inr ids, g', tx') \<and>
           getSnapshot g' = (Inr snap', g') \<and>
           utxoTreeRoot snap' = utxoTreeRoot snap \<and>
           withdrawalTreeRoot snap' = withdrawalTreeRoot snap \<and>
           utxoTree g' = Some ut' \<and> withdrawalTree g' = Some wt' \<and>
           frontierOk ut' \<and> frontierOk wt'"
proof -
  let ?f = "\<lambda>l::Leaf. l\<lparr>shouldTrack := Some False\<rparr>"
  let ?un = "paddedLen (utxoSubTreeSize (config g)) (length (utxos P)) - length (utxos P)"
  let ?wn = "paddedLen (withdrawalSubTreeSize (config g)) (length (withdrawals P))
               - length (withdrawals P)"
  let ?pu = "utxos P @ replicate ?un zeroLeaf"
  let ?pw = "withdrawals P @ replicate ?wn zeroLeaf"
  have un: "length (utxos P) + ?un = paddedLen (utxoSubTreeSize (config g)) (length (utxos P))"
    using paddedLen_ge [OF assms(3), of "length (utxos P)"] by simp
  have wn: "length (withdrawals P) + ?wn =
              paddedLen (withdrawalSubTreeSize (config g)) (length (withdrawals P))"
    using paddedLen_ge [OF assms(4), of "length (withdrawals P)"] by simp
  obtain t1 c1 x1 where a1: "append ut (treeCache g) ?pu tx = (t1, c1, x1)"
    by (cases "append ut (treeCache g) ?pu tx") auto
  let ?g1 = "g\<lparr>utxoTree := Some t1, treeCache := c1\<rparr>"
  have u: "appendUTXOs g (utxos P) tx = (Inr (tid (metadata t1)), ?g1, x1)"
    using assms(1,7) a1 by (simp add: appendUTXOs_def Let_def)
  obtain t2 c2 x2 where a2: "append wt c1 ?pw x1 = (t2, c2, x2)"
    by (cases "append wt c1 ?pw x1") auto
  let ?g2 = "?g1\<lparr>withdrawalTree := Some t2, treeCache := c2\<rparr>"
  have w: "appendWithdrawals ?g1 (withdrawals P) x1 = (Inr (tid (metadata t2)), ?g2, x2)"
    using assms(2,8) a2 by (simp add: appendWithdrawals_def Let_def)
  obtain g3 tx3 where m: "markAsNullified ?g2 (nullifiers P) x2 = (g3, tx3)"
    by (cases "markAsNullified ?g2 (nullifiers P) x2") auto
  have g3: "utxoTree g3 = Some t1" "withdrawalTree g3 = Some t2" "config g3 = config g"
    using markAsNullified_frame [OF m] by simp_all
  from recordBootstrap_ok [OF g3(1,2), of tx3 "header P"] obtain tx4 where
    r: "recordBootstrap g3 tx3 (header P) = Inr tx4" by blast
  have ap: "\<exists>tx'. applyGrovePatch g P tx = (Inr (tid (metadata t1), tid (metadata t2)), g3, tx')"
    using u w m r g3 by (cases "fullSync (config g)") (simp_all add: applyGrovePatch_def)
  have p1: "treeRoot t1 = root (dryAppend ut (map ?f (utxos P)))" "frontierOk t1"
    using append_padded [OF assms(5), of "utxos P" ?un "treeCache g" tx] assms(7) un a1
    by simp_all
  have p2: "treeRoot t2 = root (dryAppend wt (map ?f (withdrawals P)))" "frontierOk t2"
    using append_padded [OF assms(6), of "withdrawals P" ?wn c1 x1] assms(8) wn a2
    by simp_all
  let ?snap = "projr (fst (dryPatch g P))"
  let ?snap' = "projr (fst (getSnapshot g3))"
  have d: "dryPatch g P = (Inr ?snap, g)"
    "utxoTreeRoot ?snap = root (dryAppend ut (map ?f (utxos P)))"
    "withdrawalTreeRoot ?snap = root (dryAppend wt (map ?f (withdrawals P)))"
    using assms(1,2) by (simp_all add: dryPatch_def Let_def)
  have s: "getSnapshot g3 = (Inr ?snap', g3)"
    "utxoTreeRoot ?snap' = treeRoot t1" "withdrawalTreeRoot ?snap' = treeRoot t2"
    using g3 by (simp_all add: getSnapshot_def dryPatch_def Let_def dryAppend_nil)
  from ap obtain tx' where
    "applyGrovePatch g P tx = (Inr (tid (metadata t1), tid (metadata t2)), g3, tx')" by blast
  with d s p1 p2 g3 show ?thesis by (intro exI [of _ ?snap] exI [of _ g3] exI [of _ ?snap']
      exI [of _ "(tid (metadata t1), tid (metadata t2))"] exI [of _ tx'] exI [of _ t1] exI [of _ t2]) simp
qed

theorem dryPatch_predicts_roots_witness:
  "\<exists>snap ids g' tx' snap'.
     dryPatch bootstrapped oneUtxo = (Inr snap, bootstrapped) \<and>
     applyGrovePatch bootstrapped oneUtxo [] = (Inr ids, g', tx') \<and>
     getSnapshot g' = (Inr snap', g') \<and>
     utxoTreeRoot snap' = utxoTreeRoot snap \<and>
     withdrawalTreeRoot snap' = withdrawalTreeRoot snap \<and>
     utxoTreeRoot snap = 10 \<and> withdrawalTreeRoot snap = 6 \<and>
     length (utxos oneUtxo) = 1 \<and>
     paddedLen (utxoSubTreeSize (config bootstrapped)) (length (utxos oneUtxo)) = 4"
proof -
  have b: "utxoTree bootstrapped = Some (the (utxoTree bootstrapped))"
    "withdrawalTree bootstrapped = Some (the (withdrawalTree bootstrapped))"
    "0 < utxoSubTreeSize (config bootstrapped)" "0 < withdrawalSubTreeSize (config bootstrapped)"
    by (simp_all add: bootstrapped_eq demoConfig_def)
  have ok: "frontierOk (the (utxoTree bootstrapped))" "frontierOk (the (withdrawalTree bootstrapped))"
    by (simp_all add: bootstrapped_eq frontierOk_def preHashOk_def frontierHolds_def
          foldFrontier_def depth_def demoHasher_def)
  have p: "paddedLen (utxoSubTreeSize (config bootstrapped)) (length (utxos oneUtxo)) = 4"
    "paddedLen (withdrawalSubTreeSize (config bootstrapped)) (length (withdrawals oneUtxo)) = 0"
    "length (utxos oneUtxo) = 1"
    by (simp_all add: bootstrapped_eq demoConfig_def paddedLen_def oneUtxo_def)
  have fits: "latestLeafIndex (the (utxoTree bootstrapped))
             + paddedLen (utxoSubTreeSize (config bootstrapped)) (length (utxos oneUtxo))
           \<le> maxSize (the (utxoTree bootstrapped))"
    "latestLeafIndex (the (withdrawalTree bootstrapped))
       + paddedLen (withdrawalSubTreeSize (config bootstrapped)) (length (withdrawals oneUtxo))
     \<le> maxSize (the (withdrawalTree bootstrapped))"
    by (simp_all add: bootstrapped_eq demoConfig_def paddedLen_def oneUtxo_def maxSize_def
          depth_def latestLeafIndex_def)
  have v: "map_sum id utxoTreeRoot (fst (dryPatch bootstrapped oneUtxo)) = Inr 10"
    "map_sum id withdrawalTreeRoot (fst (dryPatch bootstrapped oneUtxo)) = Inr 6"
    by code_simp+
  from dryPatch_predicts_roots [OF b ok fits, of "[]"] obtain snap ids g' tx' snap' where
    r: "dryPatch bootstrapped oneUtxo = (Inr snap, bootstrapped)"
      "applyGrovePatch bootstrapped oneUtxo [] = (Inr ids, g', tx')"
      "getSnapshot g' = (Inr snap', g')"
      "utxoTreeRoot snap' = utxoTreeRoot snap"
      "withdrawalTreeRoot snap' = withdrawalTreeRoot snap"
    by blast
  from r(1) v have "utxoTreeRoot snap = 10" "withdrawalTreeRoot snap = 6" by simp_all
  with r p show ?thesis by blast
qed

section \<open>The index reported by the dry patch\<close>

text \<open>
  Claim C2.  \<open>dryPatch(P).utxoTreeIndex\<close> is \<open>dryIndex + paddedLen - rawLen\<close>, where
  \<open>dryIndex\<close> is the index returned by \<open>dryAppend\<close> over the UTXOs of the patch, and
  likewise for the withdrawals; the claim adds that this is the index at which the first
  padding leaf would live and not the final index.

  The formula holds, the reading does not: \<open>dryAppend\<close> returns the latest index plus
  \<open>rawLen\<close>, so the reported index is the latest index plus \<open>paddedLen\<close>, the index of
  the tree after the padded batch.  On the bootstrapped Grove and the patch with one
  UTXO the first padding leaf lives at index 1, the dry patch reports 4, and 4 is the
  index of the tree after the patch.
\<close>

theorem dryPatch_index_counterexample:
  "(case fst (dryPatch bootstrapped oneUtxo) of Inl _ \<Rightarrow> None | Inr s \<Rightarrow> Some (utxoTreeIndex s))
     \<noteq> map_option (\<lambda>t. firstPaddingIndex t (utxos oneUtxo)) (utxoTree bootstrapped) \<and>
   (case fst (dryPatch bootstrapped oneUtxo) of Inl _ \<Rightarrow> None | Inr s \<Rightarrow> Some (utxoTreeIndex s))
     = map_option latestLeafIndex (utxoTree (fst (snd (applyGrovePatch bootstrapped oneUtxo []))))"
  by code_simp

text \<open>
  Claim C2, amended.  On an initialized Grove with positive sub-tree sizes \<open>dryPatch\<close>
  returns a snapshot (and the Grove unchanged) whose \<open>utxoTreeIndex\<close> is
  \<open>dryIndex + paddedLen - rawLen\<close>; this is the latest leaf index plus \<open>paddedLen\<close>,
  and it is the latest leaf index of the tree after \<open>applyGrovePatch\<close> of the same
  patch, the final index.  The same holds for \<open>withdrawalTreeIndex\<close>.
\<close>

theorem dryPatch_index:
  assumes "utxoTree g = Some ut" and "withdrawalTree g = Some wt"
    and "0 < utxoSubTreeSize (config g)" and "0 < withdrawalSubTreeSize (config g)"
  shows "\<exists>snap.
           dryPatch g P = (Inr snap, g) \<and>
           utxoTreeIndex snap =
             index (dryAppend ut (map (\<lambda>l. l\<lparr>shouldTrack := Some False\<rparr>) (utxos P)))
               + paddedLen (utxoSubTreeSize (config g)) (length (utxos P)) - length (utxos P) \<and>
           withdrawalTreeIndex snap =
             index (dryAppend wt (map (\<lambda>l. l\<lparr>shouldTrack := Some False\<rparr>) (withdrawals P)))
               + paddedLen (withdrawalSubTreeSize (config g)) (length (withdrawals P))
               - length (withdrawals P) \<and>
           utxoTreeIndex snap =
             latestLeafIndex ut + paddedLen (utxoSubTreeSize (config g)) (length (utxos P)) \<and>
           withdrawalTreeIndex snap =
             latestLeafIndex wt
               + paddedLen (withdrawalSubTreeSize (config g)) (length (withdrawals P)) \<and>
           (\<forall>ids g' tx'. applyGrovePatch g P tx = (Inr ids, g', tx') \<longrightarrow>
              map_option latestLeafIndex (utxoTree g') = Some (utxoTreeIndex snap) \<and>
              map_option latestLeafIndex (withdrawalTree g') = Some (withdrawalTreeIndex snap))"
proof -
  let ?U = "latestLeafIndex ut + paddedLen (utxoSubTreeSize (config g)) (length (utxos P))"
  let ?W = "latestLeafIndex wt
              + paddedLen (withdrawalSubTreeSize (config g)) (length (withdrawals P))"
  let ?snap = "projr (fst (dryPatch g P))"
  have d: "dryPatch g P = (Inr ?snap, g)"
    using assms(1,2) by (simp add: dryPatch_def Let_def)
  have ui: "utxoTreeIndex ?snap =
              index (dryAppend ut (map (\<lambda>l. l\<lparr>shouldTrack := Some False\<rparr>) (utxos P)))
                + paddedLen (utxoSubTreeSize (config g)) (length (utxos P)) - length (utxos P)"
    and wi: "withdrawalTreeIndex ?snap =
              index (dryAppend wt (map (\<lambda>l. l\<lparr>shouldTrack := Some False\<rparr>) (withdrawals P)))
                + paddedLen (withdrawalSubTreeSize (config g)) (length (withdrawals P))
                - length (withdrawals P)"
    using assms(1,2) by (simp_all add: dryPatch_def Let_def)
  have uf: "utxoTreeIndex ?snap = ?U"
    using ui paddedLen_ge [OF assms(3), of "length (utxos P)"]
    by (simp add: dryAppend_index latestLeafIndex_def)
  have wf: "withdrawalTreeIndex ?snap = ?W"
    using wi paddedLen_ge [OF assms(4), of "length (withdrawals P)"]
    by (simp add: dryAppend_index latestLeafIndex_def)
  have fin: "map_option latestLeafIndex (utxoTree g') = Some ?U \<and>
             map_option latestLeafIndex (withdrawalTree g') = Some ?W"
    if ok: "applyGrovePatch g P tx = (Inr ids, g', tx')" for ids g' tx'
  proof -
    have fu: "?U \<le> 2 ^ depth ut"
      using applyGrovePatch_utxo_full [OF assms(1), of P tx] ok by (cases "?U \<le> 2 ^ depth ut") auto
    have fw: "?W \<le> 2 ^ depth wt"
      using applyGrovePatch_withdrawal_full [OF assms(1,2,3) fu, of tx] ok
      by (cases "?W \<le> 2 ^ depth wt") auto
    from applyGrovePatch_ok [OF assms fu fw, of tx] ok show ?thesis by auto
  qed
  from d ui wi uf wf fin show ?thesis
    by (intro exI [of _ ?snap]) simp
qed

theorem dryPatch_index_witness:
  "\<exists>snap. dryPatch bootstrapped oneUtxo = (Inr snap, bootstrapped) \<and>
          utxoTreeIndex snap = 4 \<and> withdrawalTreeIndex snap = 0"
proof -
  have b: "utxoTree bootstrapped = Some (the (utxoTree bootstrapped))"
    "withdrawalTree bootstrapped = Some (the (withdrawalTree bootstrapped))"
    "0 < utxoSubTreeSize (config bootstrapped)" "0 < withdrawalSubTreeSize (config bootstrapped)"
    by (simp_all add: bootstrapped_eq demoConfig_def)
  have p: "latestLeafIndex (the (utxoTree bootstrapped))
             + paddedLen (utxoSubTreeSize (config bootstrapped)) (length (utxos oneUtxo)) = 4"
    "latestLeafIndex (the (withdrawalTree bootstrapped))
       + paddedLen (withdrawalSubTreeSize (config bootstrapped)) (length (withdrawals oneUtxo)) = 0"
    by (simp_all add: bootstrapped_eq demoConfig_def paddedLen_def oneUtxo_def latestLeafIndex_def)
  from dryPatch_index [OF b, of oneUtxo "[]"] p show ?thesis by auto
qed

section \<open>Full trees\<close>

text \<open>
  Claim C3.  \<open>applyGrovePatch\<close> is to fail with the \<open>TreeFull\<close> error that names the
  offending species exactly when the current index plus the padded length exceeds
  \<open>2^D\<close> for the tree of that species, to leave the tree state unchanged on that
  failure, and never to let an index exceed \<open>2^D\<close> after a successful append.

  The state is not unchanged when the withdrawal tree is the one that overflows: the
  UTXO append has then already happened.  On the bootstrapped Grove, the patch with one
  UTXO and five withdrawals fails with the withdrawal error, and afterwards the UTXO
  tree has the index 4 instead of 0 and the transaction holds a staged write.
\<close>

theorem withdrawal_overflow_partial_state:
  "fst (applyGrovePatch bootstrapped tooManyWithdrawals []) = Inl (TreeFull WITHDRAWAL) \<and>
   map_option latestLeafIndex (utxoTree bootstrapped) = Some 0 \<and>
   map_option latestLeafIndex
     (utxoTree (fst (snd (applyGrovePatch bootstrapped tooManyWithdrawals [])))) = Some 4 \<and>
   length (snd (snd (applyGrovePatch bootstrapped tooManyWithdrawals []))) = 1"
  by code_simp

text \<open>
  Claim C3, amended.  On an initialized Grove the append of a species fails with the
  \<open>TreeFull\<close> error that names the species exactly when the current index plus the
  padded length exceeds \<open>2^D\<close> for the tree of that species, and \<open>applyGrovePatch\<close>
  fails exactly when one of the two trees would overflow.  When the UTXO tree would
  overflow, the error names the UTXO tree and the Grove and the transaction are
  unchanged.  When the UTXO batch fits and the withdrawal tree would overflow, the error
  names the withdrawal tree and the withdrawal tree is unchanged, while the UTXO tree has
  been appended to (its index advanced by the padded length) and its writes are staged in
  the transaction.  After a successful patch the index of each tree is the old index plus
  the padded length and does not exceed \<open>2^D\<close>.
\<close>

theorem applyGrovePatch_TreeFull:
  assumes "utxoTree g = Some ut" and "withdrawalTree g = Some wt"
    and "0 < utxoSubTreeSize (config g)" and "0 < withdrawalSubTreeSize (config g)"
  shows
    "(let U = latestLeafIndex ut + paddedLen (utxoSubTreeSize (config g)) (length (utxos P));
          W = latestLeafIndex wt
                + paddedLen (withdrawalSubTreeSize (config g)) (length (withdrawals P));
          res = applyGrovePatch g P tx;
          g' = fst (snd res)
      in (fst (appendUTXOs g (utxos P) tx) = Inl (TreeFull UTXO) \<longleftrightarrow> maxSize ut < U) \<and>
         (fst (appendWithdrawals g (withdrawals P) tx) = Inl (TreeFull WITHDRAWAL)
            \<longleftrightarrow> maxSize wt < W) \<and>
         ((\<exists>e. fst res = Inl e) \<longleftrightarrow> maxSize ut < U \<or> maxSize wt < W) \<and>
         (maxSize ut < U \<longrightarrow> res = (Inl (TreeFull UTXO), g, tx)) \<and>
         (U \<le> maxSize ut \<and> maxSize wt < W \<longrightarrow>
            fst res = Inl (TreeFull WITHDRAWAL) \<and> withdrawalTree g' = Some wt \<and>
            (\<exists>ut'. utxoTree g' = Some ut' \<and> latestLeafIndex ut' = U) \<and>
            snd (snd res) \<noteq> tx) \<and>
         (U \<le> maxSize ut \<and> W \<le> maxSize wt \<longrightarrow>
            (\<exists>ids ut' wt'. fst res = Inr ids \<and>
               utxoTree g' = Some ut' \<and> withdrawalTree g' = Some wt' \<and>
               latestLeafIndex ut' = U \<and> latestLeafIndex wt' = W \<and>
               latestLeafIndex ut' \<le> maxSize ut' \<and> latestLeafIndex wt' \<le> maxSize wt')))"
proof -
  let ?U = "latestLeafIndex ut + paddedLen (utxoSubTreeSize (config g)) (length (utxos P))"
  let ?W = "latestLeafIndex wt
              + paddedLen (withdrawalSubTreeSize (config g)) (length (withdrawals P))"
  let ?res = "applyGrovePatch g P tx"
  have a: "maxSize ut < ?U \<Longrightarrow> ?res = (Inl (TreeFull UTXO), g, tx)"
    using applyGrovePatch_utxo_full [OF assms(1), of P tx] by (simp add: maxSize_def)
  have b: "?U \<le> maxSize ut \<Longrightarrow> maxSize wt < ?W \<Longrightarrow>
             fst ?res = Inl (TreeFull WITHDRAWAL) \<and> withdrawalTree (fst (snd ?res)) = Some wt \<and>
             (\<exists>ut'. utxoTree (fst (snd ?res)) = Some ut' \<and> latestLeafIndex ut' = ?U) \<and>
             snd (snd ?res) \<noteq> tx"
    using applyGrovePatch_withdrawal_full_state [OF assms(1,2,3), of P tx] assms(2)
    by (auto simp: maxSize_def)
  have c: "?U \<le> maxSize ut \<Longrightarrow> ?W \<le> maxSize wt \<Longrightarrow>
             (\<exists>ids ut' wt'. fst ?res = Inr ids \<and>
                utxoTree (fst (snd ?res)) = Some ut' \<and> withdrawalTree (fst (snd ?res)) = Some wt' \<and>
                latestLeafIndex ut' = ?U \<and> latestLeafIndex wt' = ?W \<and>
                latestLeafIndex ut' \<le> maxSize ut' \<and> latestLeafIndex wt' \<le> maxSize wt')"
    using applyGrovePatch_ok [OF assms, of P tx] by (auto simp: maxSize_def)
  have d: "(\<exists>e. fst ?res = Inl e) \<longleftrightarrow> maxSize ut < ?U \<or> maxSize wt < ?W"
  proof (cases "maxSize ut < ?U")
    case True
    with a show ?thesis by simp
  next
    case u: False
    show ?thesis
    proof (cases "maxSize wt < ?W")
      case True
      with u b show ?thesis by simp
    next
      case False
      with u c show ?thesis by auto
    qed
  qed
  from a b c d appendUTXOs_TreeFull_iff [OF assms(1,3), of "utxos P" tx]
    appendWithdrawals_TreeFull_iff [OF assms(2,4), of "withdrawals P" tx]
  show ?thesis unfolding Let_def by blast
qed

theorem applyGrovePatch_TreeFull_witness:
  "(\<exists>ids ut' wt'.
      fst (applyGrovePatch bootstrapped oneUtxo []) = Inr ids \<and>
      utxoTree (fst (snd (applyGrovePatch bootstrapped oneUtxo []))) = Some ut' \<and>
      withdrawalTree (fst (snd (applyGrovePatch bootstrapped oneUtxo []))) = Some wt' \<and>
      latestLeafIndex ut' = 4 \<and> latestLeafIndex wt' = 0 \<and>
      latestLeafIndex ut' \<le> maxSize ut' \<and> latestLeafIndex wt' \<le> maxSize wt') \<and>
   applyGrovePatch fullGrove oneUtxo [] = (Inl (TreeFull UTXO), fullGrove, []) \<and>
   fst (applyGrovePatch bootstrapped tooManyWithdrawals []) = Inl (TreeFull WITHDRAWAL) \<and>
   withdrawalTree (fst (snd (applyGrovePatch bootstrapped tooManyWithdrawals [])))
     = withdrawalTree bootstrapped \<and>
   (\<exists>ut'. utxoTree (fst (snd (applyGrovePatch bootstrapped tooManyWithdrawals []))) = Some ut' \<and>
          latestLeafIndex ut' = 4) \<and>
   snd (snd (applyGrovePatch bootstrapped tooManyWithdrawals [])) \<noteq> []"
proof -
  have b: "utxoTree bootstrapped = Some (the (utxoTree bootstrapped))"
    "withdrawalTree bootstrapped = Some (the (withdrawalTree bootstrapped))"
    "0 < utxoSubTreeSize (config bootstrapped)" "0 < withdrawalSubTreeSize (config bootstrapped)"
    by (simp_all add: bootstrapped_eq demoConfig_def)
  have f: "utxoTree fullGrove = Some (the (utxoTree fullGrove))"
    "withdrawalTree fullGrove = Some (the (withdrawalTree fullGrove))"
    "0 < utxoSubTreeSize (config fullGrove)" "0 < withdrawalSubTreeSize (config fullGrove)"
    using fullGrove_facts by (simp_all add: Option.is_none_def)
  have p: "paddedLen 4 (length (utxos oneUtxo)) = 4" "paddedLen 2 (length (withdrawals oneUtxo)) = 0"
    by (simp_all add: paddedLen_def oneUtxo_def)
  have q: "paddedLen 4 (length (utxos tooManyWithdrawals)) = 4"
    "paddedLen 2 (length (withdrawals tooManyWithdrawals)) = 6"
    by (simp_all add: paddedLen_def tooManyWithdrawals_def)
  from applyGrovePatch_TreeFull [OF b, of oneUtxo "[]"] p
  have 1: "(\<exists>ids ut' wt'.
      fst (applyGrovePatch bootstrapped oneUtxo []) = Inr ids \<and>
      utxoTree (fst (snd (applyGrovePatch bootstrapped oneUtxo []))) = Some ut' \<and>
      withdrawalTree (fst (snd (applyGrovePatch bootstrapped oneUtxo []))) = Some wt' \<and>
      latestLeafIndex ut' = 4 \<and> latestLeafIndex wt' = 0 \<and>
      latestLeafIndex ut' \<le> maxSize ut' \<and> latestLeafIndex wt' \<le> maxSize wt')"
    by (simp add: Let_def bootstrapped_eq demoConfig_def maxSize_def depth_def latestLeafIndex_def)
  from applyGrovePatch_TreeFull [OF f, of oneUtxo "[]"] p fullGrove_facts
  have 2: "applyGrovePatch fullGrove oneUtxo [] = (Inl (TreeFull UTXO), fullGrove, [])"
    by (simp add: Let_def)
  from applyGrovePatch_TreeFull [OF b, of tooManyWithdrawals "[]"] q
  have 3: "fst (applyGrovePatch bootstrapped tooManyWithdrawals []) = Inl (TreeFull WITHDRAWAL) \<and>
   withdrawalTree (fst (snd (applyGrovePatch bootstrapped tooManyWithdrawals [])))
     = withdrawalTree bootstrapped \<and>
   (\<exists>ut'. utxoTree (fst (snd (applyGrovePatch bootstrapped tooManyWithdrawals []))) = Some ut' \<and>
          latestLeafIndex ut' = 4) \<and>
   snd (snd (applyGrovePatch bootstrapped tooManyWithdrawals [])) \<noteq> []"
    by (simp add: Let_def bootstrapped_eq demoConfig_def maxSize_def depth_def latestLeafIndex_def)
  from 1 2 3 show ?thesis by blast
qed

section \<open>Bootstrap from starting-leaf proofs\<close>

text \<open>
  Claim C4.  \<open>applyBootstrap\<close> requires the starting-leaf proof of both trees; when one
  is rejected it is to fail with \<open>InvalidBootstrapProof\<close> and to leave no partial state:
  with a valid UTXO proof and an invalid withdrawal proof no \<open>LightTree\<close> row is to be
  persisted for either species and no tree replaced.

  The UTXO row is persisted all the same: \<open>bootstrapUtxoTree\<close> upserts it in the
  database before \<open>bootstrapWithdrawalTree\<close> checks the second proof.  Over the empty
  database, with the proof of the empty tree for the UTXOs and a proof with a wrong root
  for the withdrawals, the call fails and the table holds the UTXO row afterwards.
\<close>

theorem applyBootstrap_partial_state:
  "fst (applyBootstrap (newGrove emptyDB demoConfig) genesisProof badProof)
     = Inl InvalidBootstrapProof \<and>
   LightTree (db (newGrove emptyDB demoConfig)) = [] \<and>
   LightTree (db (snd (applyBootstrap (newGrove emptyDB demoConfig) genesisProof badProof))) =
     [\<lparr>root = 6, index = 0, siblings = [0, 1], tid = 0, species = UTXO,
       startIdx = 0, endIdx = 0\<rparr>]"
  by code_simp

text \<open>
  Claim C4, amended.  \<open>applyBootstrap\<close> succeeds exactly when \<open>startingLeafProof\<close>
  holds for both proofs, and then both trees are set to the root, index and siblings of
  their proofs.  When a proof is rejected it fails with \<open>InvalidBootstrapProof\<close>,
  neither tree in memory is replaced and no withdrawal row is written; when the UTXO
  proof is the rejected one the Grove is unchanged; when the UTXO proof is valid and the
  withdrawal proof is rejected, the UTXO row has been upserted with the root, index and
  siblings of the UTXO proof.
\<close>

theorem applyBootstrap_proofs:
  "(let uok = startingLeafProof (utxoHasher (config g)) (root up) (index up) (siblings up);
        wok = startingLeafProof (withdrawalHasher (config g)) (root wp) (index wp) (siblings wp);
        res = applyBootstrap g up wp;
        g' = snd res
    in (fst res = Inr () \<longleftrightarrow> uok \<and> wok) \<and>
       (\<not> (uok \<and> wok) \<longrightarrow>
          fst res = Inl InvalidBootstrapProof \<and>
          utxoTree g' = utxoTree g \<and> withdrawalTree g' = withdrawalTree g \<and>
          filter (\<lambda>row. species row = WITHDRAWAL) (LightTree (db g')) =
            filter (\<lambda>row. species row = WITHDRAWAL) (LightTree (db g))) \<and>
       (\<not> uok \<longrightarrow> g' = g) \<and>
       (uok \<and> \<not> wok \<longrightarrow>
          (\<exists>row. findOne (LightTree (db g')) (\<lambda>row. species row = UTXO) = Val row \<and>
                 root row = root up \<and> index row = index up \<and> siblings row = siblings up)) \<and>
       (uok \<and> wok \<longrightarrow>
          (\<exists>ut wt. utxoTree g' = Some ut \<and> withdrawalTree g' = Some wt \<and>
             data ut = \<lparr>root = root up, index = index up, siblings = siblings up\<rparr> \<and>
             data wt = \<lparr>root = root wp, index = index wp, siblings = siblings wp\<rparr>)))"
proof (cases "startingLeafProof (utxoHasher (config g)) (root up) (index up) (siblings up)")
  case False
  then have "applyBootstrap g up wp = (Inl InvalidBootstrapProof, g)"
    by (simp add: applyBootstrap_def bootstrapUtxoTree_invalid)
  with False show ?thesis by (simp add: Let_def)
next
  case uok: True
  from bootstrapUtxoTree_valid [OF uok] obtain urow d where
    u: "bootstrapUtxoTree g (Some up) =
          (Inr (Val urow, UtxoTree_from urow (utxoHasher (config g)) (forceUpdate (config g))
                            (fullSync (config g))),
           g\<lparr>db := d\<rparr>)"
    and uf: "findOne (LightTree d) (\<lambda>row. species row = UTXO) = Val urow"
    and ud: "root urow = root up" "index urow = index up" "siblings urow = siblings up"
    and uo: "filter (\<lambda>row. species row = WITHDRAWAL) (LightTree d) =
               filter (\<lambda>row. species row = WITHDRAWAL) (LightTree (db g))"
    by blast
  let ?g1 = "g\<lparr>db := d\<rparr>"
  show ?thesis
  proof (cases "startingLeafProof (withdrawalHasher (config g)) (root wp) (index wp) (siblings wp)")
    case False
    then have "bootstrapWithdrawalTree ?g1 (Some wp) = (Inl InvalidBootstrapProof, ?g1)"
      by (intro bootstrapWithdrawalTree_invalid) simp
    with u have "applyBootstrap g up wp = (Inl InvalidBootstrapProof, ?g1)"
      by (simp add: applyBootstrap_def)
    with uok False uf ud uo show ?thesis by (simp add: Let_def)
  next
    case wok: True
    then have "startingLeafProof (withdrawalHasher (config ?g1)) (root wp) (index wp) (siblings wp)"
      by simp
    from bootstrapWithdrawalTree_valid [OF this] obtain wrow d' where
      w: "bootstrapWithdrawalTree ?g1 (Some wp) =
            (Inr (Val wrow, WithdrawalTree_from wrow (withdrawalHasher (config g))
                              (forceUpdate (config g)) (fullSync (config g))),
             ?g1\<lparr>db := d'\<rparr>)"
      and wd: "root wrow = root wp" "index wrow = index wp" "siblings wrow = siblings wp"
      by auto
    from u w have "applyBootstrap g up wp =
        (Inr (), ?g1\<lparr>db := d',
                     utxoTree := Some (UtxoTree_from urow (utxoHasher (config g))
                                         (forceUpdate (config g)) (fullSync (config g))),
                     withdrawalTree := Some (WithdrawalTree_from wrow (withdrawalHasher (config g))
                                               (forceUpdate (config g)) (fullSync (config g)))\<rparr>)"
      by (simp add: applyBootstrap_def)
    with uok wok ud wd show ?thesis
      by (simp add: Let_def UtxoTree_from_def WithdrawalTree_from_def LightRollupTree_from_def)
  qed
qed

theorem applyBootstrap_proofs_witness:
  "fst (applyBootstrap (newGrove emptyDB demoConfig) genesisProof badProof)
     = Inl InvalidBootstrapProof \<and>
   utxoTree (snd (applyBootstrap (newGrove emptyDB demoConfig) genesisProof badProof)) = None \<and>
   withdrawalTree (snd (applyBootstrap (newGrove emptyDB demoConfig) genesisProof badProof)) = None \<and>
   (\<exists>row. findOne (LightTree (db (snd (applyBootstrap (newGrove emptyDB demoConfig)
                                         genesisProof badProof))))
             (\<lambda>row. species row = UTXO) = Val row \<and>
          root row = 6 \<and> index row = 0 \<and> siblings row = [0, 1]) \<and>
   fst (applyBootstrap (newGrove emptyDB demoConfig) genesisProof genesisProof) = Inr ()"
proof -
  have ok: "startingLeafProof demoHasher (root genesisProof) (index genesisProof)
              (siblings genesisProof)"
    and bad: "\<not> startingLeafProof demoHasher (root badProof) (index badProof) (siblings badProof)"
    by (simp_all add: startingLeafProof_def verifyProof_def genesisProof_def badProof_def
          demoHasher_def bitAt_def)
  have c: "utxoHasher (config (newGrove emptyDB demoConfig)) = demoHasher"
    "withdrawalHasher (config (newGrove emptyDB demoConfig)) = demoHasher"
    "utxoTree (newGrove emptyDB demoConfig) = None"
    "withdrawalTree (newGrove emptyDB demoConfig) = None"
    by (simp_all add: newGrove_def demoConfig_def)
  from applyBootstrap_proofs [of "newGrove emptyDB demoConfig" genesisProof badProof] ok bad c
  have 1: "fst (applyBootstrap (newGrove emptyDB demoConfig) genesisProof badProof)
             = Inl InvalidBootstrapProof \<and>
    utxoTree (snd (applyBootstrap (newGrove emptyDB demoConfig) genesisProof badProof)) = None \<and>
    withdrawalTree (snd (applyBootstrap (newGrove emptyDB demoConfig) genesisProof badProof)) = None \<and>
    (\<exists>row. findOne (LightTree (db (snd (applyBootstrap (newGrove emptyDB demoConfig)
                                         genesisProof badProof))))
             (\<lambda>row. species row = UTXO) = Val row \<and>
          root row = 6 \<and> index row = 0 \<and> siblings row = [0, 1])"
    by (simp add: Let_def genesisProof_def)
  from applyBootstrap_proofs [of "newGrove emptyDB demoConfig" genesisProof genesisProof] ok c
  have 2: "fst (applyBootstrap (newGrove emptyDB demoConfig) genesisProof genesisProof) = Inr ()"
    by (simp add: Let_def)
  from 1 2 show ?thesis by blast
qed

section \<open>Proofs of UTXOs\<close>

text \<open>
  Claim C5.  On an initialized Grove \<open>utxoMerkleProof(hash)\<close> fails with
  \<open>LeafNotFound\<close> when no \<open>Utxo\<close> row has that hash, with \<open>LeafNotCommitted\<close> when
  the row exists and its index is null, with \<open>ProofUnavailable\<close> when the reconstructed
  proof does not satisfy \<open>verifyProof\<close>, and otherwise returns the reconstructed proof;
  every proof it returns satisfies \<open>verifyProof\<close> under the UTXO hasher and has the
  queried hash as its leaf.
\<close>

theorem utxoMerkleProof_cases:
  assumes "utxoTree g = Some t"
  shows
    "((\<forall>r\<in>set (Utxo (db g)). utxoHash r \<noteq> h) \<longrightarrow>
        utxoMerkleProof g h = Inl (LeafNotFound UTXO)) \<and>
     (\<forall>u. findOne (Utxo (db g)) (\<lambda>r. utxoHash r = h) = Val u \<and> utxoIndex u = None \<longrightarrow>
        utxoMerkleProof g h = Inl LeafNotCommitted) \<and>
     (\<forall>u i. findOne (Utxo (db g)) (\<lambda>r. utxoHash r = h) = Val u \<and> utxoIndex u = Some i \<longrightarrow>
        (let prf = reconstructProof (utxoHasher (config g)) (utxoTreeDepth (config g)) t
                     (getCachedSiblings (treeCache g) (db g) (utxoTreeDepth (config g))
                        (tid (metadata t)) i)
                     i h
         in utxoMerkleProof g h =
              (if verifyProof (utxoHasher (config g)) prf then Inr prf
               else Inl (ProofUnavailable UTXO)))) \<and>
     (\<forall>p. utxoMerkleProof g h = Inr p \<longrightarrow> verifyProof (utxoHasher (config g)) p \<and> leaf p = h)"
proof -
  have A: "utxoMerkleProof g h = Inl (LeafNotFound UTXO)"
    if "\<forall>r\<in>set (Utxo (db g)). utxoHash r \<noteq> h"
  proof -
    from that have "findOne (Utxo (db g)) (\<lambda>r. utxoHash r = h) = Undefined"
      by (simp add: findOne_Undefined)
    then show ?thesis by (simp add: utxoMerkleProof_def LeafNotFound_def)
  qed
  have B: "utxoMerkleProof g h = Inl LeafNotCommitted"
    if "findOne (Utxo (db g)) (\<lambda>r. utxoHash r = h) = Val u \<and> utxoIndex u = None" for u
    using that by (simp add: utxoMerkleProof_def LeafNotCommitted_def)
  have C: "let prf = reconstructProof (utxoHasher (config g)) (utxoTreeDepth (config g)) t
                 (getCachedSiblings (treeCache g) (db g) (utxoTreeDepth (config g))
                    (tid (metadata t)) i)
                 i h
     in utxoMerkleProof g h =
          (if verifyProof (utxoHasher (config g)) prf then Inr prf
           else Inl (ProofUnavailable UTXO))"
    if a: "findOne (Utxo (db g)) (\<lambda>r. utxoHash r = h) = Val u \<and> utxoIndex u = Some i" for u i
  proof -
    have "utxoHash u = h" using findOne_Val [OF conjunct1 [OF a]] by simp
    with a assms show ?thesis
      by (simp add: utxoMerkleProof_def Let_def ProofUnavailable_def)
  qed
  have D: "verifyProof (utxoHasher (config g)) p \<and> leaf p = h"
    if r: "utxoMerkleProof g h = Inr p" for p
  proof -
    from r obtain u where u: "findOne (Utxo (db g)) (\<lambda>r. utxoHash r = h) = Val u"
      by (cases "findOne (Utxo (db g)) (\<lambda>r. utxoHash r = h)") (simp_all add: utxoMerkleProof_def)
    then have uh: "utxoHash u = h" using findOne_Val [OF u] by simp
    from r u obtain i where i: "utxoIndex u = Some i"
      by (cases "utxoIndex u") (simp_all add: utxoMerkleProof_def)
    from r u i assms uh show ?thesis
      by (auto simp: utxoMerkleProof_def Let_def reconstructProof_def split: if_splits prod.splits)
  qed
  from A B C D show ?thesis by blast
qed

theorem utxoMerkleProof_cases_witness:
  "utxoMerkleProof provingGrove 3 = Inl (LeafNotFound UTXO) \<and>
   utxoMerkleProof provingGrove 2 = Inl LeafNotCommitted \<and>
   utxoMerkleProof provingGrove 4 = Inl (ProofUnavailable UTXO) \<and>
   utxoMerkleProof provingGrove 1 = Inr \<lparr>root = 10, index = 0, siblings = [0, 1], leaf = 1\<rparr> \<and>
   verifyProof (utxoHasher (config provingGrove))
     \<lparr>root = 10, index = 0, siblings = [0, 1], leaf = 1\<rparr>"
proof -
  have t: "utxoTree provingGrove = Some (the (utxoTree provingGrove))"
    using provingGrove_utxo(1) by (simp add: Option.is_none_def)
  from utxoMerkleProof_cases [OF t, of 3] provingGrove_utxo(2)
  have 1: "utxoMerkleProof provingGrove 3 = Inl (LeafNotFound UTXO)" by blast
  from utxoMerkleProof_cases [OF t, of 2] provingGrove_utxo(3)
  have 2: "utxoMerkleProof provingGrove 2 = Inl LeafNotCommitted" by simp
  from utxoMerkleProof_cases [OF t, of 1] provingGrove_utxo(6)
  have 3: "verifyProof (utxoHasher (config provingGrove))
             \<lparr>root = 10, index = 0, siblings = [0, 1], leaf = 1\<rparr>" by blast
  from 1 2 3 provingGrove_utxo(5,6) show ?thesis by blast
qed

section \<open>Purity of the dry patch\<close>



section \<open>Genesis\<close>

text \<open>
  Claim C7.  After \<open>init\<close> over an empty database the snapshot is to show the genesis
  root and the index 0 for both trees.  Over the empty database \<open>findOne\<close> returns
  \<open>undefined\<close>, which is not strictly equal to \<open>null\<close>: \<open>init\<close> skips the bootstrap of
  the new tree, its assertion on the row fails, no tree is set and the snapshot fails.
\<close>

theorem init_empty_database:
  "init (newGrove emptyDB c) = (Inl AssertionError, newGrove emptyDB c) \<and>
   fst (getSnapshot (snd (init (newGrove emptyDB c)))) = Inl (TypeError ''dryAppend'')"
  by (simp add: init_def newGrove_def emptyDB_def findOne_def findMany_def getSnapshot_def
        dryPatch_def)

section \<open>Operations before initialization\<close>

text \<open>
  Claim C8.  Every mutation and proof query on a Grove that was neither initialized nor
  bootstrapped is to fail with \<open>NotInitialized\<close>.  Only the appends of
  \<open>applyGrovePatch\<close> check that the tree is set.  \<open>dryPatch\<close> and \<open>getSnapshot\<close> read
  \<open>dryAppend\<close> of the unset tree and fail with a \<open>TypeError\<close>; the proof queries look
  the leaf up first and never raise \<open>NotInitialized\<close>.
\<close>

theorem uninitialized_errors:
  "fst (dryPatch (newGrove d c) P) = Inl (TypeError ''dryAppend'') \<and>
   fst (getSnapshot (newGrove d c)) = Inl (TypeError ''dryAppend'') \<and>
   fst (dryPatch (newGrove d c) P) \<noteq> Inl NotInitialized \<and>
   utxoMerkleProof (newGrove d c) h \<noteq> Inl NotInitialized \<and>
   withdrawalMerkleProof (newGrove d c) h i \<noteq> Inl NotInitialized"
  by (simp add: dryPatch_def getSnapshot_def newGrove_def NotInitialized_def utxoMerkleProof_def
        withdrawalMerkleProof_def Let_def split: js.splits option.splits)

section \<open>Light mode\<close>

text \<open>
  Claim C9.  On a Grove without nullifier tree \<open>markAsNullified\<close> does nothing and
  raises nothing: a patch that fits is applied, both appends succeed, the Grove still has
  no nullifier tree, the transaction receives no write of the nullifier tree, and the
  result is the one of the same patch without nullifiers.
\<close>

theorem markAsNullified_light_mode:
  assumes "utxoTree g = Some ut" and "withdrawalTree g = Some wt"
    and "nullifierTree g = None"
    and "0 < utxoSubTreeSize (config g)" and "0 < withdrawalSubTreeSize (config g)"
    and "latestLeafIndex ut + paddedLen (utxoSubTreeSize (config g)) (length (utxos P)) \<le> maxSize ut"
    and "latestLeafIndex wt + paddedLen (withdrawalSubTreeSize (config g)) (length (withdrawals P))
           \<le> maxSize wt"
  shows "markAsNullified g (nullifiers P) tx = (g, tx) \<and>
         (\<exists>ids g' tx' ut' wt'.
            applyGrovePatch g P tx = (Inr ids, g', tx') \<and>
            utxoTree g' = Some ut' \<and> withdrawalTree g' = Some wt' \<and>
            latestLeafIndex ut' =
              latestLeafIndex ut + paddedLen (utxoSubTreeSize (config g)) (length (utxos P)) \<and>
            latestLeafIndex wt' =
              latestLeafIndex wt
                + paddedLen (withdrawalSubTreeSize (config g)) (length (withdrawals P)) \<and>
            nullifierTree g' = None \<and>
            filter isNullifierOp tx' = filter isNullifierOp tx \<and>
            applyGrovePatch g (P\<lparr>nullifiers := []\<rparr>) tx = (Inr ids, g', tx'))"
proof -
  from applyGrovePatch_ok [OF assms(1,2,4,5), of P tx] assms(3,6,7)
  obtain g' tx' ut' wt' where
    "applyGrovePatch g P tx = (Inr (tid (metadata ut), tid (metadata wt)), g', tx')"
    "utxoTree g' = Some ut'" "withdrawalTree g' = Some wt'"
    "latestLeafIndex ut' =
       latestLeafIndex ut + paddedLen (utxoSubTreeSize (config g)) (length (utxos P))"
    "latestLeafIndex wt' =
       latestLeafIndex wt + paddedLen (withdrawalSubTreeSize (config g)) (length (withdrawals P))"
    "nullifierTree g' = None" "filter isNullifierOp tx' = filter isNullifierOp tx"
    by (auto simp: maxSize_def)
  moreover note applyGrovePatch_light_nullifiers [OF assms(3), where P = P and ns = "[]" and tx = tx]
    markAsNullified_absent [OF assms(3), of "nullifiers P" tx]
  ultimately show ?thesis by auto
qed

theorem markAsNullified_light_mode_witness:
  "markAsNullified bootstrapped (nullifiers oneUtxo) [] = (bootstrapped, []) \<and>
   nullifiers oneUtxo = [5] \<and>
   (\<exists>ids g' tx'.
      applyGrovePatch bootstrapped oneUtxo [] = (Inr ids, g', tx') \<and>
      nullifierTree g' = None \<and> filter isNullifierOp tx' = [] \<and>
      applyGrovePatch bootstrapped (oneUtxo\<lparr>nullifiers := []\<rparr>) [] = (Inr ids, g', tx'))"
proof -
  have b: "utxoTree bootstrapped = Some (the (utxoTree bootstrapped))"
    "withdrawalTree bootstrapped = Some (the (withdrawalTree bootstrapped))"
    "nullifierTree bootstrapped = None"
    "0 < utxoSubTreeSize (config bootstrapped)" "0 < withdrawalSubTreeSize (config bootstrapped)"
    by (simp_all add: bootstrapped_eq demoConfig_def)
  have p: "latestLeafIndex (the (utxoTree bootstrapped))
             + paddedLen (utxoSubTreeSize (config bootstrapped)) (length (utxos oneUtxo))
           \<le> maxSize (the (utxoTree bootstrapped))"
    "latestLeafIndex (the (withdrawalTree bootstrapped))
       + paddedLen (withdrawalSubTreeSize (config bootstrapped)) (length (withdrawals oneUtxo))
     \<le> maxSize (the (withdrawalTree bootstrapped))"
    by (simp_all add: bootstrapped_eq demoConfig_def paddedLen_def oneUtxo_def maxSize_def
          depth_def latestLeafIndex_def)
  from markAsNullified_light_mode [OF b p, of "[]"] show ?thesis
    by (auto simp: oneUtxo_def)
qed

section \<open>Proofs of withdrawals at a supplied index\<close>

text \<open>
  Claim C10.  For a \<open>Withdrawal\<close> row found by \<open>withdrawalMerkleProof(noteHash, index)\<close>
  a supplied index takes precedence over the stored one: the proof is reconstructed at
  the supplied index, whatever the stored index is, and a returned proof carries the
  supplied index.  \<open>LeafNotCommitted\<close> is raised exactly when no index is supplied and
  the stored index is null; without a supplied index the stored one is used.
\<close>

theorem withdrawalMerkleProof_index_precedence:
  assumes "withdrawalTree g = Some t"
    and "findOne (Withdrawal (db g)) (\<lambda>r. withdrawalHash r = noteHash) = Val w"
  shows
    "withdrawalMerkleProof g noteHash (Some i) =
       (let prf = reconstructProof (withdrawalHasher (config g)) (withdrawalTreeDepth (config g)) t
                    (getCachedSiblings (treeCache g) (db g) (withdrawalTreeDepth (config g))
                       (tid (metadata t)) i)
                    i noteHash
        in if verifyProof (withdrawalHasher (config g)) prf then Inr prf
           else Inl (ProofUnavailable WITHDRAWAL)) \<and>
     withdrawalMerkleProof g noteHash (Some i) \<noteq> Inl LeafNotCommitted \<and>
     (\<forall>p. withdrawalMerkleProof g noteHash (Some i) = Inr p \<longrightarrow> index p = i) \<and>
     (withdrawalMerkleProof g noteHash idx = Inl LeafNotCommitted
        \<longleftrightarrow> idx = None \<and> withdrawalIndex w = None) \<and>
     withdrawalMerkleProof g noteHash None =
       (case withdrawalIndex w of
          None \<Rightarrow> Inl LeafNotCommitted
        | Some j \<Rightarrow> withdrawalMerkleProof g noteHash (Some j))"
proof -
  have some: "withdrawalMerkleProof g noteHash (Some j) =
       (let prf = reconstructProof (withdrawalHasher (config g)) (withdrawalTreeDepth (config g)) t
                    (getCachedSiblings (treeCache g) (db g) (withdrawalTreeDepth (config g))
                       (tid (metadata t)) j)
                    j noteHash
        in if verifyProof (withdrawalHasher (config g)) prf then Inr prf
           else Inl (ProofUnavailable WITHDRAWAL))" for j
    using assms by (simp add: withdrawalMerkleProof_def Let_def ProofUnavailable_def)
  have ne: "withdrawalMerkleProof g noteHash (Some j) \<noteq> Inl LeafNotCommitted" for j
    by (simp add: some Let_def ProofUnavailable_def LeafNotCommitted_def)
  have ix: "withdrawalMerkleProof g noteHash (Some j) = Inr p \<Longrightarrow> index p = j" for j p
    by (auto simp: some Let_def reconstructProof_def split: if_splits prod.splits)
  have none: "withdrawalMerkleProof g noteHash None =
       (case withdrawalIndex w of
          None \<Rightarrow> Inl LeafNotCommitted
        | Some j \<Rightarrow> withdrawalMerkleProof g noteHash (Some j))"
    using assms by (simp add: withdrawalMerkleProof_def LeafNotCommitted_def split: option.splits)
  have iff: "withdrawalMerkleProof g noteHash idx = Inl LeafNotCommitted
        \<longleftrightarrow> idx = None \<and> withdrawalIndex w = None"
  proof (cases idx)
    case None
    with none ne show ?thesis by (cases "withdrawalIndex w") simp_all
  next
    case (Some j)
    with ne show ?thesis by simp
  qed
  from some [of i] ne [of i] ix [of i] iff none show ?thesis by blast
qed

theorem withdrawalMerkleProof_index_precedence_witness:
  "findOne (Withdrawal (db provingGrove)) (\<lambda>r. withdrawalHash r = 7)
     = Val \<lparr>withdrawalHash = 7, withdrawalIndex = Some 1\<rparr> \<and>
   withdrawalMerkleProof provingGrove 7 (Some 0)
     = Inr \<lparr>root = 34, index = 0, siblings = [0, 1], leaf = 7\<rparr> \<and>
   withdrawalMerkleProof provingGrove 7 None = withdrawalMerkleProof provingGrove 7 (Some 1) \<and>
   withdrawalMerkleProof provingGrove 8 None = Inl LeafNotCommitted \<and>
   withdrawalMerkleProof provingGrove 8 (Some 0) \<noteq> Inl LeafNotCommitted"
proof -
  have t: "withdrawalTree provingGrove = Some (the (withdrawalTree provingGrove))"
    using provingGrove_withdrawal(1) by (simp add: Option.is_none_def)
  from withdrawalMerkleProof_index_precedence [OF t provingGrove_withdrawal(2), of 0 None]
  have "withdrawalMerkleProof provingGrove 7 None =
      (case withdrawalIndex \<lparr>withdrawalHash = 7, withdrawalIndex = Some 1\<rparr> of
         None \<Rightarrow> Inl LeafNotCommitted
       | Some j \<Rightarrow> withdrawalMerkleProof provingGrove 7 (Some j))"
    by blast
  then have 1: "withdrawalMerkleProof provingGrove 7 None = withdrawalMerkleProof provingGrove 7 (Some 1)"
    by simp
  note w8 = withdrawalMerkleProof_index_precedence [OF t provingGrove_withdrawal(3), of 0 None]
  from w8 have 2: "withdrawalMerkleProof provingGrove 8 (Some 0) \<noteq> Inl LeafNotCommitted"
    by blast
  from w8 have "withdrawalMerkleProof provingGrove 8 None =
      (case withdrawalIndex \<lparr>withdrawalHash = 8, withdrawalIndex = None\<rparr> of
         None \<Rightarrow> Inl LeafNotCommitted
       | Some j \<Rightarrow> withdrawalMerkleProof provingGrove 8 (Some j))"
    by blast
  then have 3: "withdrawalMerkleProof provingGrove 8 None = Inl LeafNotCommitted" by simp
  from 1 2 3 provingGrove_withdrawal(2,4) show ?thesis by blast
qed

end
